theory Spec2Isabelle
  imports Main
begin

section \<open>Data model of the communications app\<close>

text \<open>
  The Django models of \<^verbatim>\<open>communications/models.py\<close> and \<^verbatim>\<open>leads/models.py\<close> are
  records; a database table is the list of its rows in insertion order, a foreign key is
  the primary key of the row it points to, a nullable column is an \<open>option\<close>.
  Time stamps are natural numbers; every operation that reads \<^verbatim>\<open>timezone.now()\<close> takes
  the clock reading \<open>now\<close> of that call as an argument.
  Field names carry the prefix of their model, since several models share names such as
  \<^verbatim>\<open>status\<close>, \<^verbatim>\<open>user\<close> and \<^verbatim>\<open>is_active\<close>.
\<close>

datatype email_status =
  Queued | Sending | Sent | Delivered | Opened | Clicked | Replied | Bounced | Failed | Spam

record email =
  em_id :: nat
  em_tracking_id :: nat
  em_user :: nat
  em_lead :: nat
  em_campaign :: "nat option"
  em_template :: "nat option"
  em_subject :: string
  em_body_html :: string
  em_body_text :: string
  em_from_email :: string
  em_from_name :: string
  em_to_email :: string
  em_to_name :: string
  em_reply_to :: string
  em_status :: email_status
  em_created_at :: nat
  em_sent_at :: "nat option"
  em_opened_at :: "nat option"
  em_clicked_at :: "nat option"
  em_open_count :: int
  em_click_count :: int
  em_error_message :: string
  em_retry_count :: int
  em_max_retries :: int

record email_tracking_row =
  trk_email :: nat
  trk_event_type :: string
  trk_timestamp :: nat
  trk_ip_address :: "string option"
  trk_user_agent :: string

record lead_activity =
  act_lead :: nat
  act_user :: nat
  act_activity_type :: string
  act_subject :: string
  act_description :: string
  act_created_at :: nat

record lead =
  lead_id :: nat
  lead_first_name :: string
  lead_last_name :: "string option"
  lead_email :: "string option"
  lead_phone :: "string option"
  lead_company :: "string option"
  lead_source_id :: "nat option"
  lead_status :: string
  lead_priority :: string

record email_configuration =
  cfg_id :: "nat option"
  cfg_user :: nat
  cfg_name :: string
  cfg_from_email :: string
  cfg_from_name :: string
  cfg_reply_to :: string
  cfg_is_active :: bool
  cfg_is_default :: bool

record db =
  db_leads :: "lead list"
  db_configs :: "email_configuration list"
  db_emails :: "email list"
  db_tracking :: "email_tracking_row list"
  db_activities :: "lead_activity list"

text \<open>
  The exceptions of the database that the model keeps: a violated constraint
  (IntegrityError) and a value that does not fit its column (DataError).
\<close>

datatype db_error = IntegrityError | DataError

text \<open>
  \<^verbatim>\<open>Model.save()\<close> on a row that has a primary key: the row with that key is replaced
  (an SQL UPDATE), and inserted when no row has the key.
\<close>

definition save_email :: "db \<Rightarrow> email \<Rightarrow> db" where
  "save_email d e =
     (if em_id e \<in> set (map em_id (db_emails d))
      then d\<lparr>db_emails := map (\<lambda>r. if em_id r = em_id e then e else r) (db_emails d)\<rparr>
      else d\<lparr>db_emails := db_emails d @ [e]\<rparr>)"

section \<open>Open and click tracking\<close>

text \<open>
  \<^verbatim>\<open>Email.mark_as_opened\<close> and \<^verbatim>\<open>Email.mark_as_clicked\<close> (models.py): the
  object is changed and saved only inside the status guard.
\<close>

definition mark_as_opened :: "nat \<Rightarrow> db \<Rightarrow> email \<Rightarrow> db \<times> email" where
  "mark_as_opened now d e =
     (if em_status e \<in> {Sent, Delivered}
      then (let e' = e\<lparr>em_status := Opened, em_opened_at := Some now,
                         em_open_count := em_open_count e + 1\<rparr>
            in (save_email d e', e'))
      else (d, e))"

definition mark_as_clicked :: "nat \<Rightarrow> db \<Rightarrow> email \<Rightarrow> db \<times> email" where
  "mark_as_clicked now d e =
     (if em_status e \<in> {Sent, Delivered, Opened}
      then (let e1 = e\<lparr>em_status := Clicked, em_clicked_at := Some now,
                         em_click_count := em_click_count e + 1\<rparr>;
                e2 = (if em_opened_at e1 = None
                      then e1\<lparr>em_opened_at := Some now, em_open_count := em_open_count e1 + 1\<rparr>
                      else e1)
            in (save_email d e2, e2))
      else (d, e))"

datatype http_response = Pixel | NoContent

text \<open>
  What the view reads of the request: \<^verbatim>\<open>request.META.get('REMOTE_ADDR')\<close> and the header
  \<^verbatim>\<open>HTTP_USER_AGENT\<close>, each absent or a text. What it depends on outside the repository:
  whether the database refuses a text longer than its column (PostgreSQL does, SQLite
  does not), and the normal form \<^verbatim>\<open>clean_ipv6_address\<close> that Django's
  \<^verbatim>\<open>GenericIPAddressField\<close> writes for an address with a colon.
\<close>

record request_meta =
  meta_remote_addr :: "string option"
  meta_http_user_agent :: "string option"

record platform =
  pf_varchar_enforced :: bool
  pf_clean_ipv6_address :: "string \<Rightarrow> string"

text \<open>
  The value that the column \<^verbatim>\<open>ip_address\<close> (a \<^verbatim>\<open>GenericIPAddressField\<close> with
  \<^verbatim>\<open>null=True\<close>) stores: the empty string becomes NULL.
\<close>

definition stored_ip :: "platform \<Rightarrow> string option \<Rightarrow> string option" where
  "stored_ip pf remote_addr =
     (case remote_addr of
        None \<Rightarrow> None
      | Some a \<Rightarrow> if a = [] then None
                  else if CHR '':'' \<in> set a then Some (pf_clean_ipv6_address pf a)
                  else Some a)"

text \<open>
  The view \<^verbatim>\<open>email_tracking(request, tracking_id, event)\<close> (views.py), for a GET request.
  \<^verbatim>\<open>tracking_id\<close> is a unique column, so \<^verbatim>\<open>Email.objects.get\<close> finds at most one row;
  \<^verbatim>\<open>Email.DoesNotExist\<close> is caught and answered with 204. The URL pattern
  \<^verbatim>\<open><str:event>\<close> admits any text, the column \<^verbatim>\<open>event_type\<close> holds 20 characters: where
  the database enforces that, the insert of a longer event raises DataError, which the
  view does not catch, and nothing is stored.
\<close>

definition email_tracking ::
  "platform \<Rightarrow> nat \<Rightarrow> db \<Rightarrow> nat \<Rightarrow> string \<Rightarrow> request_meta
     \<Rightarrow> db_error + db \<times> http_response" where
  "email_tracking pf now d tracking_id event meta =
     (case find (\<lambda>e. em_tracking_id e = tracking_id) (db_emails d) of
        None \<Rightarrow> Inr (d, NoContent)
      | Some e \<Rightarrow>
          if pf_varchar_enforced pf \<and> length event > 20 then Inl DataError
          else
          (let d1 = d\<lparr>db_tracking := db_tracking d @
                        [\<lparr>trk_email = em_id e, trk_event_type = event, trk_timestamp = now,
                          trk_ip_address = stored_ip pf (meta_remote_addr meta),
                          trk_user_agent = (case meta_http_user_agent meta of
                                              None \<Rightarrow> [] | Some ua \<Rightarrow> ua)\<rparr>]\<rparr>;
               d2 = (if event = ''opened'' then fst (mark_as_opened now d1 e)
                     else if event = ''clicked'' then fst (mark_as_clicked now d1 e)
                     else d1)
           in if event = ''opened'' then Inr (d2, Pixel) else Inr (d2, NoContent)))"

text \<open>
  The position of a status in the lifecycle
  queued, sending, sent, delivered, opened, clicked, replied;
  bounced, failed and spam are side branches without a position.
\<close>

fun lifecycle_pos :: "email_status \<Rightarrow> nat option" where
  "lifecycle_pos Queued = Some 0"
| "lifecycle_pos Sending = Some 1"
| "lifecycle_pos Sent = Some 2"
| "lifecycle_pos Delivered = Some 3"
| "lifecycle_pos Opened = Some 4"
| "lifecycle_pos Clicked = Some 5"
| "lifecycle_pos Replied = Some 6"
| "lifecycle_pos Bounced = None"
| "lifecycle_pos Failed = None"
| "lifecycle_pos Spam = None"

definition not_backwards :: "email_status \<Rightarrow> email_status \<Rightarrow> bool" where
  "not_backwards old new =
     (old = new \<or>
      (case (lifecycle_pos old, lifecycle_pos new) of
         (Some i, Some j) \<Rightarrow> i < j
       | _ \<Rightarrow> False))"

definition example_email :: email where
  "example_email =
     \<lparr>em_id = 1, em_tracking_id = 77, em_user = 1, em_lead = 1, em_campaign = None,
      em_template = None, em_subject = ''Hello'', em_body_html = ''<p>Hi</p>'',
      em_body_text = ''Hi'', em_from_email = ''rep@crm.example'', em_from_name = ''Rep'',
      em_to_email = ''ann@example.org'', em_to_name = ''Ann'', em_reply_to = [],
      em_status = Sent, em_created_at = 0, em_sent_at = Some 1, em_opened_at = None,
      em_clicked_at = None, em_open_count = 0, em_click_count = 0, em_error_message = [],
      em_retry_count = 0, em_max_retries = 3\<rparr>"

definition example_db :: db where
  "example_db =
     \<lparr>db_leads = [], db_configs = [], db_emails = [example_email], db_tracking = [],
      db_activities = []\<rparr>"

definition opened_db :: db where
  "opened_db =
     example_db\<lparr>db_emails :=
       [example_email\<lparr>em_status := Opened, em_opened_at := Some 2, em_open_count := 1\<rparr>]\<rparr>"

text \<open>A database that enforces column lengths, and the request of a browser.\<close>

definition strict_platform :: platform where
  "strict_platform = \<lparr>pf_varchar_enforced = True, pf_clean_ipv6_address = (\<lambda>a. a)\<rparr>"

definition browser_request :: request_meta where
  "browser_request =
     \<lparr>meta_remote_addr = Some ''203.0.113.9'', meta_http_user_agent = Some ''Mozilla''\<rparr>"

section \<open>Email configurations\<close>

text \<open>
  \<^verbatim>\<open>EmailConfiguration.save\<close> (models.py) clears the default flag of the user's rows and
  then calls \<^verbatim>\<open>super().save()\<close>. \<open>model_save\<close> is Django's \<^verbatim>\<open>Model.save\<close> with the
  table's \<^verbatim>\<open>unique_together = ['user', 'name']\<close>: a second row with the same user and
  name raises IntegrityError (after the flags were cleared: the two statements are not
  in one transaction); a row with the object's primary key is replaced; otherwise the
  object is inserted, with a fresh key when it has none.
\<close>

definition fresh_id :: "nat list \<Rightarrow> nat" where
  "fresh_id ids = Suc (fold max ids 0)"

definition clear_defaults :: "nat \<Rightarrow> email_configuration list \<Rightarrow> email_configuration list" where
  "clear_defaults u tbl =
     map (\<lambda>r. if cfg_user r = u \<and> cfg_is_default r then r\<lparr>cfg_is_default := False\<rparr> else r) tbl"

definition model_save ::
  "email_configuration list \<Rightarrow> email_configuration
     \<Rightarrow> email_configuration list \<times> (db_error + email_configuration)" where
  "model_save tbl c =
     (if \<exists>r \<in> set tbl. cfg_user r = cfg_user c \<and> cfg_name r = cfg_name c \<and> cfg_id r \<noteq> cfg_id c
      then (tbl, Inl IntegrityError)
      else if cfg_id c \<noteq> None \<and> cfg_id c \<in> set (map cfg_id tbl)
      then (map (\<lambda>r. if cfg_id r = cfg_id c then c else r) tbl, Inr c)
      else (let c' = (if cfg_id c = None
                      then c\<lparr>cfg_id := Some (fresh_id (List.map_filter cfg_id tbl))\<rparr>
                      else c)
            in (tbl @ [c'], Inr c')))"

definition save_configuration ::
  "email_configuration list \<Rightarrow> email_configuration
     \<Rightarrow> email_configuration list \<times> (db_error + email_configuration)" where
  "save_configuration tbl c =
     model_save (if cfg_is_default c then clear_defaults (cfg_user c) tbl else tbl) c"

definition defaults_of :: "nat \<Rightarrow> email_configuration list \<Rightarrow> email_configuration list" where
  "defaults_of u tbl = filter (\<lambda>r. cfg_user r = u \<and> cfg_is_default r) tbl"

definition at_most_one_default :: "email_configuration list \<Rightarrow> bool" where
  "at_most_one_default tbl = (\<forall>r \<in> set tbl. length (defaults_of (cfg_user r) tbl) \<le> 1)"

definition first_config :: email_configuration where
  "first_config =
     \<lparr>cfg_id = Some 1, cfg_user = 1, cfg_name = ''Gmail'', cfg_from_email = ''rep@crm.example'',
      cfg_from_name = ''Rep'', cfg_reply_to = [], cfg_is_active = True, cfg_is_default = True\<rparr>"

definition second_config :: email_configuration where
  "second_config =
     \<lparr>cfg_id = None, cfg_user = 1, cfg_name = ''Outlook'', cfg_from_email = ''rep@crm.example'',
      cfg_from_name = ''Rep'', cfg_reply_to = [], cfg_is_active = True, cfg_is_default = True\<rparr>"

section \<open>Campaign targeting\<close>

record user =
  usr_id :: nat
  usr_first_name :: string
  usr_last_name :: string
  usr_email :: string

record email_template =
  tpl_id :: nat
  tpl_subject :: string
  tpl_body_html :: string
  tpl_body_text :: string

datatype campaign_status =
  CampDraft | CampScheduled | CampSending | CampSent | CampPaused | CampCancelled

text \<open>
  \<^verbatim>\<open>EmailCampaign\<close>. The related objects \<^verbatim>\<open>user\<close>, \<^verbatim>\<open>template\<close> and \<^verbatim>\<open>email_config\<close>
  are held as the objects the foreign keys load; the many-to-many relation
  \<^verbatim>\<open>specific_leads\<close> is the list of the related leads' primary keys; the JSON lists are
  lists of strings (statuses, priorities) and of source keys.
\<close>

record email_campaign =
  camp_id :: nat
  camp_user :: user
  camp_template :: email_template
  camp_email_config :: email_configuration
  camp_status :: campaign_status
  camp_target_all_leads :: bool
  camp_target_statuses :: "string list"
  camp_target_priorities :: "string list"
  camp_target_sources :: "nat list"
  camp_specific_leads :: "nat list"
  camp_batch_size :: int
  camp_total_recipients :: int
  camp_emails_sent :: int
  camp_emails_failed :: int
  camp_started_at :: "nat option"
  camp_completed_at :: "nat option"

datatype query_error = NotSupportedError

text \<open>
  The last line of \<^verbatim>\<open>get_target_leads\<close>:
  \<^verbatim>\<open>queryset.filter(email__isnull=False).exclude(email='').distinct()\<close>.
\<close>

definition has_email :: "lead \<Rightarrow> bool" where
  "has_email l = (lead_email l \<noteq> None \<and> lead_email l \<noteq> Some [])"

definition with_email :: "lead list \<Rightarrow> lead list" where
  "with_email ls = remdups (filter has_email ls)"

text \<open>
  The querysets that the \<^verbatim>\<open>else\<close> branch of \<^verbatim>\<open>get_target_leads\<close> passes to
  \<^verbatim>\<open>union\<close>, in the order of the four \<^verbatim>\<open>if\<close> statements; a criterion whose list is
  empty (falsy) adds none.
\<close>

definition target_querysets :: "lead list \<Rightarrow> email_campaign \<Rightarrow> lead list list" where
  "target_querysets leads c =
     (if camp_target_statuses c \<noteq> []
      then [filter (\<lambda>l. lead_status l \<in> set (camp_target_statuses c)) leads] else [])
     @ (if camp_target_priorities c \<noteq> []
        then [filter (\<lambda>l. lead_priority l \<in> set (camp_target_priorities c)) leads] else [])
     @ (if camp_target_sources c \<noteq> []
        then [filter (\<lambda>l. case lead_source_id l of None \<Rightarrow> False
                              | Some s \<Rightarrow> s \<in> set (camp_target_sources c)) leads] else [])
     @ (if filter (\<lambda>l. lead_id l \<in> set (camp_specific_leads c)) leads \<noteq> []
        then [filter (\<lambda>l. lead_id l \<in> set (camp_specific_leads c)) leads] else [])"

text \<open>
  \<^verbatim>\<open>EmailCampaign.get_target_leads\<close> (models.py). With \<^verbatim>\<open>target_all_leads\<close> the
  queryset is \<^verbatim>\<open>Lead.objects.all()\<close>. Otherwise it starts from \<^verbatim>\<open>Lead.objects.none()\<close>;
  with no criterion it stays empty. What \<^verbatim>\<open>filter\<close>, \<^verbatim>\<open>exclude\<close> and \<^verbatim>\<open>distinct\<close> do on
  a queryset built by \<^verbatim>\<open>union\<close> is decided by the installed Django, which the
  repository does not pin (Django documents that only slicing, \<^verbatim>\<open>count\<close>, \<^verbatim>\<open>order_by\<close>
  and \<^verbatim>\<open>values\<close> are allowed there, and raises NotSupportedError for \<^verbatim>\<open>filter\<close>);
  it is the parameter \<open>after_union\<close>, applied to the querysets that were combined.
  Rows come in table order.
\<close>

definition get_target_leads ::
  "(lead list list \<Rightarrow> query_error + lead list) \<Rightarrow> lead list \<Rightarrow> email_campaign
     \<Rightarrow> query_error + lead list" where
  "get_target_leads after_union leads c =
     (if camp_target_all_leads c then Inr (with_email leads)
      else if target_querysets leads c = [] then Inr (with_email [])
      else after_union (target_querysets leads c))"

text \<open>Two readings of \<open>after_union\<close>: SQL's, and Django's refusal of more than one part.\<close>

definition sql_after_union :: "lead list list \<Rightarrow> query_error + lead list" where
  "sql_after_union parts = Inr (with_email (remdups (concat parts)))"

definition django_after_union :: "lead list list \<Rightarrow> query_error + lead list" where
  "django_after_union parts =
     (if length parts = 1 then Inr (with_email (concat parts)) else Inl NotSupportedError)"

definition ann :: lead where
  "ann = \<lparr>lead_id = 1, lead_first_name = ''Ann'', lead_last_name = Some ''Lee'',
          lead_email = Some ''ann@example.org'', lead_phone = None, lead_company = Some [],
          lead_source_id = None, lead_status = ''new'', lead_priority = ''warm''\<rparr>"

definition bob :: lead where
  "bob = \<lparr>lead_id = 2, lead_first_name = ''Bob'', lead_last_name = None,
          lead_email = Some [], lead_phone = None, lead_company = None,
          lead_source_id = Some 3, lead_status = ''won'', lead_priority = ''hot''\<rparr>"

definition rep :: user where
  "rep = \<lparr>usr_id = 1, usr_first_name = ''Rita'', usr_last_name = ''Rep'',
          usr_email = ''rep@crm.example''\<rparr>"

definition welcome_template :: email_template where
  "welcome_template = \<lparr>tpl_id = 1, tpl_subject = ''Welcome {{first_name}}!'',
              tpl_body_html = ''<p>Hi {{first_name}}, from {{company}}</p>'',
              tpl_body_text = []\<rparr>"

definition all_leads_campaign :: email_campaign where
  "all_leads_campaign =
     \<lparr>camp_id = 1, camp_user = rep, camp_template = welcome_template, camp_email_config = first_config,
      camp_status = CampDraft, camp_target_all_leads = True, camp_target_statuses = [''won''],
      camp_target_priorities = [], camp_target_sources = [3], camp_specific_leads = [2],
      camp_batch_size = 2, camp_total_recipients = 0, camp_emails_sent = 0,
      camp_emails_failed = 0, camp_started_at = None, camp_completed_at = None\<rparr>"

section \<open>Sending\<close>

text \<open>
  \<^verbatim>\<open>EmailService.send_email\<close> (services.py). Everything between the first
  \<^verbatim>\<open>email.save()\<close> and the test of \<^verbatim>\<open>result\<close> (building the message, the tracking URL, the
  connection, and the call \<^verbatim>\<open>msg.send(using=connection)\<close>) is the parameter \<open>transport\<close>:
  for the configuration and the email it tells which of the three branches of the method
  runs. \<open>SendOk\<close>: the call returned a truthy count. \<open>SendFalse\<close>: it returned a falsy one
  without raising. \<open>SendRaised\<close>: an exception with the given text was raised inside the
  \<^verbatim>\<open>try\<close> block. The result is the database, the email object, and the pair
  \<^verbatim>\<open>(success, message)\<close> that the method returns.
\<close>

datatype send_outcome = SendOk | SendFalse | SendRaised string

type_synonym transport = "email_configuration \<Rightarrow> email \<Rightarrow> send_outcome"

definition send_email ::
  "transport \<Rightarrow> nat \<Rightarrow> email_configuration \<Rightarrow> db \<Rightarrow> email \<Rightarrow> db \<times> email \<times> bool \<times> string" where
  "send_email transport now config d email =
     (let e1 = email\<lparr>em_status := Sending\<rparr>;
          d1 = save_email d e1
      in case transport config e1 of
           SendOk \<Rightarrow>
             (let e2 = e1\<lparr>em_status := Sent, em_sent_at := Some now\<rparr>;
                  d2 = save_email d1 e2;
                  d3 = d2\<lparr>db_tracking := db_tracking d2 @
                         [\<lparr>trk_email = em_id e2, trk_event_type = ''sent'', trk_timestamp = now,
                           trk_ip_address = None, trk_user_agent = []\<rparr>]\<rparr>;
                  d4 = d3\<lparr>db_activities := db_activities d3 @
                         [\<lparr>act_lead = em_lead e2, act_user = em_user e2,
                           act_activity_type = ''email'',
                           act_subject = ''Email sent: '' @ em_subject e2,
                           act_description = ''Email sent to '' @ em_to_email e2,
                           act_created_at = now\<rparr>]\<rparr>
              in (d4, e2, True, ''Email sent successfully''))
         | SendFalse \<Rightarrow>
             (let e2 = e1\<lparr>em_status := Failed, em_error_message := ''Failed to send email''\<rparr>
              in (save_email d1 e2, e2, False, ''Failed to send email''))
         | SendRaised msg \<Rightarrow>
             (let e2 = e1\<lparr>em_status := Failed, em_error_message := msg,
                            em_retry_count := em_retry_count e1 + 1\<rparr>
              in (save_email d1 e2, e2, False, msg)))"

text \<open>
  \<^verbatim>\<open>EmailCampaignService.send_campaign_batch\<close> (services.py). The queryset follows the
  model's ordering \<^verbatim>\<open>['-created_at']\<close>; \<^verbatim>\<open>[:batch_size]\<close> with a negative bound is
  refused by Django. The \<^verbatim>\<open>for\<close> loop is \<open>send_all\<close>, with the two counters as
  accumulators. The campaign object is returned as \<^verbatim>\<open>campaign.save()\<close> stores it.
\<close>

definition newest_first :: "email list \<Rightarrow> email list" where
  "newest_first es = sort_key (\<lambda>e. - int (em_created_at e)) es"

definition queued_emails :: "db \<Rightarrow> email_campaign \<Rightarrow> email list" where
  "queued_emails d c =
     filter (\<lambda>e. em_campaign e = Some (camp_id c) \<and> em_status e = Queued)
       (newest_first (db_emails d))"

fun send_all ::
  "transport \<Rightarrow> nat \<Rightarrow> email_configuration \<Rightarrow> db \<Rightarrow> email list \<Rightarrow> int \<Rightarrow> int
     \<Rightarrow> db \<times> int \<times> int" where
  "send_all transport now config d [] sent_count failed_count = (d, sent_count, failed_count)"
| "send_all transport now config d (e # es) sent_count failed_count =
     (case send_email transport now config d e of
        (d', e', success, message) \<Rightarrow>
          if success then send_all transport now config d' es (sent_count + 1) failed_count
          else send_all transport now config d' es sent_count (failed_count + 1))"

datatype batch_error = NegativeIndexing

definition send_campaign_batch ::
  "transport \<Rightarrow> nat \<Rightarrow> db \<Rightarrow> email_campaign \<Rightarrow> int option
     \<Rightarrow> batch_error + (db \<times> email_campaign \<times> int \<times> int)" where
  "send_campaign_batch transport now d campaign batch_size =
     (let bs = (case batch_size of
                  None \<Rightarrow> camp_batch_size campaign
                | Some k \<Rightarrow> if k = 0 then camp_batch_size campaign else k)
      in if bs < 0 then Inl NegativeIndexing
         else (let queued = take (nat bs) (queued_emails d campaign)
               in if queued = []
                  then Inr (d, campaign\<lparr>camp_status := CampSent, camp_completed_at := Some now\<rparr>,
                            0, 0)
                  else (case send_all transport now (camp_email_config campaign) d queued 0 0 of
                          (d', sent_count, failed_count) \<Rightarrow>
                            Inr (d',
                                 campaign\<lparr>camp_emails_sent := camp_emails_sent campaign + sent_count,
                                          camp_emails_failed :=
                                            camp_emails_failed campaign + failed_count\<rparr>,
                                 sent_count, failed_count))))"

text \<open>Whether the transport delivers an email: \<^verbatim>\<open>send_email\<close> hands it over with status sending.\<close>

definition delivered :: "transport \<Rightarrow> email_configuration \<Rightarrow> email \<Rightarrow> bool" where
  "delivered transport config e = (transport config (e\<lparr>em_status := Sending\<rparr>) = SendOk)"

text \<open>
  The transport of an installation that runs the method on Django's own message class.
  \<^verbatim>\<open>EmailMessage.send(self, fail_silently=False)\<close> has no parameter \<^verbatim>\<open>using\<close>, so the call
  \<^verbatim>\<open>msg.send(using=connection)\<close> raises TypeError for every message, with the text that
  Python gives, and a failed delivery reaches \<^verbatim>\<open>send_email\<close> as an exception. The other
  two outcomes need a \<^verbatim>\<open>send\<close> that accepts the keyword.
\<close>

definition django_send :: transport where
  "django_send config e =
     SendRaised (''EmailMessage.send() got an unexpected keyword argument ''
                 @ [CHR 0x27] @ ''using'' @ [CHR 0x27])"



definition always_delivers :: transport where
  "always_delivers config e = SendOk"

text \<open>
  The example of a campaign in status sending with batch size 2 and five queued rows,
  created at the instants 1 to 5, and a transport that delivers every message.
\<close>

definition queued_for :: "nat \<Rightarrow> email" where
  "queued_for n = example_email\<lparr>em_id := n, em_tracking_id := 100 + n, em_lead := n,
                     em_campaign := Some 1, em_status := Queued, em_created_at := n,
                     em_sent_at := None\<rparr>"

definition five_queued_db :: db where
  "five_queued_db = example_db\<lparr>db_emails := map queued_for [1, 2, 3, 4, 5]\<rparr>"

definition sending_campaign :: email_campaign where
  "sending_campaign = all_leads_campaign\<lparr>camp_status := CampSending\<rparr>"

text \<open>
  The scheduler: the loop over the campaigns in status sending that the task
  \<^verbatim>\<open>process_email_campaigns\<close> (tasks.py) and the command \<^verbatim>\<open>process_emails\<close> both run, for
  one campaign. The batch is sent only when \<^verbatim>\<open>queued_count > 0\<close>. In the task an
  exception of the call ends the run.
\<close>

definition queued_count :: "db \<Rightarrow> email_campaign \<Rightarrow> int" where
  "queued_count d c =
     int (length (filter (\<lambda>e. em_campaign e = Some (camp_id c) \<and> em_status e = Queued)
                    (db_emails d)))"

definition continue_sending ::
  "transport \<Rightarrow> nat \<Rightarrow> db \<Rightarrow> email_campaign \<Rightarrow> batch_error + (db \<times> email_campaign)" where
  "continue_sending transport now d campaign =
     (if camp_status campaign = CampSending \<and> queued_count d campaign > 0
      then (case send_campaign_batch transport now d campaign None of
              Inl err \<Rightarrow> Inl err
            | Inr (d', c', sent_count, failed_count) \<Rightarrow> Inr (d', c'))
      else Inr (d, campaign))"

text \<open>One run of the scheduler per clock reading of the list.\<close>

fun scheduler_runs ::
  "transport \<Rightarrow> nat list \<Rightarrow> db \<Rightarrow> email_campaign \<Rightarrow> batch_error + (db \<times> email_campaign)" where
  "scheduler_runs transport [] d c = Inr (d, c)"
| "scheduler_runs transport (now # later) d c =
     (case continue_sending transport now d c of
        Inl err \<Rightarrow> Inl err
      | Inr (d', c') \<Rightarrow> scheduler_runs transport later d' c')"

section \<open>Creating email rows\<close>

text \<open>
  Rendering a template for a lead and a user (\<^verbatim>\<open>EmailTemplateService.render_template\<close>)
  is a parameter of the operations that create emails: it gives the three rendered
  strings, or the text of the exception that Django's template engine raised.
\<close>

record rendered_content =
  rc_subject :: string
  rc_html_body :: string
  rc_text_body :: string

type_synonym renderer = "email_template \<Rightarrow> lead \<Rightarrow> user \<Rightarrow> string + rendered_content"

text \<open>
  \<^verbatim>\<open>Lead.get_full_name\<close> (leads/models.py): first and last name with a blank between,
  stripped of white space at both ends as \<^verbatim>\<open>str.strip\<close> does.
\<close>

definition is_space :: "char \<Rightarrow> bool" where
  "is_space ch = (of_char ch \<in> set [9, 10, 11, 12, 13, 28, 29, 30, 31, 32, 133, 160 :: nat])"

definition strip :: "string \<Rightarrow> string" where
  "strip s = rev (dropWhile is_space (rev (dropWhile is_space s)))"

definition get_full_name :: "lead \<Rightarrow> string" where
  "get_full_name l =
     strip (lead_first_name l @ '' '' @ (case lead_last_name l of None \<Rightarrow> [] | Some n \<Rightarrow> n))"

text \<open>
  \<^verbatim>\<open>Email.objects.create(..., status='queued')\<close> as the two services call it: the columns
  that are not passed take the defaults of the model, the primary key is fresh, and the
  tracking id is what \<^verbatim>\<open>uuid.uuid4\<close> gives for the new row (the parameter \<open>uuid4\<close>).
  The insert is refused with IntegrityError when \<^verbatim>\<open>to_email\<close> is null or the tracking
  id is already in the table (the column is unique), and with DataError when the
  database enforces the lengths of the columns and a text is longer than its column
  (the rendered subject and the full name of the lead can be).
\<close>

definition objects_create ::
  "platform \<Rightarrow> (nat \<Rightarrow> nat) \<Rightarrow> nat \<Rightarrow> db \<Rightarrow> user \<Rightarrow> lead \<Rightarrow> nat option \<Rightarrow> email_template
     \<Rightarrow> rendered_content \<Rightarrow> email_configuration \<Rightarrow> db_error + (db \<times> email)" where
  "objects_create pf uuid4 now d u l campaign template content config =
     (case lead_email l of
        None \<Rightarrow> Inl IntegrityError
      | Some address \<Rightarrow>
          (let pk = fresh_id (map em_id (db_emails d));
               e = \<lparr>em_id = pk, em_tracking_id = uuid4 pk, em_user = usr_id u, em_lead = lead_id l,
                    em_campaign = campaign, em_template = Some (tpl_id template),
                    em_subject = rc_subject content, em_body_html = rc_html_body content,
                    em_body_text = rc_text_body content, em_from_email = cfg_from_email config,
                    em_from_name = cfg_from_name config, em_to_email = address,
                    em_to_name = get_full_name l, em_reply_to = cfg_reply_to config,
                    em_status = Queued, em_created_at = now, em_sent_at = None,
                    em_opened_at = None, em_clicked_at = None, em_open_count = 0,
                    em_click_count = 0, em_error_message = [], em_retry_count = 0,
                    em_max_retries = 3\<rparr>
           in if uuid4 pk \<in> set (map em_tracking_id (db_emails d)) then Inl IntegrityError
              else if pf_varchar_enforced pf
                      \<and> (length (em_subject e) > 300 \<or> length (em_from_email e) > 254
                           \<or> length (em_from_name e) > 100 \<or> length (em_to_email e) > 254
                           \<or> length (em_to_name e) > 100 \<or> length (em_reply_to e) > 254)
              then Inl DataError
              else Inr (d\<lparr>db_emails := db_emails d @ [e]\<rparr>, e)))"

section \<open>Email sequences\<close>

text \<open>
  \<^verbatim>\<open>EmailSequenceStep\<close>, \<^verbatim>\<open>EmailSequence\<close> with its related set \<^verbatim>\<open>steps\<close>, and
  \<^verbatim>\<open>EmailSequenceEnrollment\<close> with the sequence and the lead that its foreign keys load.
\<close>

record email_sequence_step =
  step_template :: email_template
  step_number :: int
  step_delay_days :: int
  step_send_only_if_not_replied :: bool
  step_send_only_if_status :: "string list"
  step_is_active :: bool

record email_sequence =
  seq_id :: nat
  seq_user :: user
  seq_steps :: "email_sequence_step list"
  seq_delay_start_days :: int

record email_sequence_enrollment =
  enr_sequence :: email_sequence
  enr_lead :: lead
  enr_current_step :: int
  enr_is_active :: bool
  enr_completed_at :: "nat option"
  enr_emails_sent :: int
  enr_last_email_sent :: "nat option"
  enr_has_replied :: bool

text \<open>
  \<^verbatim>\<open>enrollment.sequence.steps.filter(step_number=enrollment.current_step + 1,
  is_active=True).first()\<close>; \<^verbatim>\<open>unique_together\<close> leaves at most one step with the number.
\<close>

definition next_step :: "email_sequence_enrollment \<Rightarrow> email_sequence_step option" where
  "next_step enrollment =
     find (\<lambda>s. step_number s = enr_current_step enrollment + 1 \<and> step_is_active s)
       (seq_steps (enr_sequence enrollment))"

text \<open>
  The configuration that the \<^verbatim>\<open>try\<close> block looks up: the first default row of the user,
  else the first active one. Among several rows the ordering \<^verbatim>\<open>['-is_default', 'name']\<close> of
  the model decides; the table is read in that order.
\<close>

definition sequence_config :: "email_configuration list \<Rightarrow> nat \<Rightarrow> email_configuration option" where
  "sequence_config tbl u =
     (case find (\<lambda>c. cfg_user c = u \<and> cfg_is_default c) tbl of
        Some c \<Rightarrow> Some c
      | None \<Rightarrow> find (\<lambda>c. cfg_user c = u \<and> cfg_is_active c) tbl)"

text \<open>
  The \<^verbatim>\<open>try\<close> block of \<^verbatim>\<open>_schedule_next_step\<close>, for the step that passed the two
  conditions. Without a configuration the method logs and returns; an exception of the
  renderer or of the insert is caught and logged, and nothing was changed before it.
  The enrollment object is returned as \<^verbatim>\<open>enrollment.save()\<close> stores it.
\<close>

definition send_step_email ::
  "platform \<Rightarrow> renderer \<Rightarrow> (nat \<Rightarrow> nat) \<Rightarrow> transport \<Rightarrow> nat \<Rightarrow> db \<Rightarrow> email_sequence_enrollment
     \<Rightarrow> email_sequence_step \<Rightarrow> db \<times> email_sequence_enrollment" where
  "send_step_email pf render uuid4 transport now d enrollment step =
     (let u = seq_user (enr_sequence enrollment) in
      case sequence_config (db_configs d) (usr_id u) of
        None \<Rightarrow> (d, enrollment)
      | Some email_config \<Rightarrow>
          (case render (step_template step) (enr_lead enrollment) u of
             Inl msg \<Rightarrow> (d, enrollment)
           | Inr content \<Rightarrow>
               (case objects_create pf uuid4 now d u (enr_lead enrollment) None (step_template step)
                       content email_config of
                  Inl err \<Rightarrow> (d, enrollment)
                | Inr (d1, email) \<Rightarrow>
                    (let enrollment' =
                           enrollment\<lparr>enr_current_step := step_number step,
                                      enr_emails_sent := enr_emails_sent enrollment + 1,
                                      enr_last_email_sent := Some now\<rparr>
                     in case send_email transport now email_config d1 email of
                          (d2, email', success, message) \<Rightarrow> (d2, enrollment')))))"

text \<open>
  \<^verbatim>\<open>EmailSequenceService._schedule_next_step\<close> (services.py). A step that a condition
  rules out is skipped: the enrollment moves to its number and the method calls itself.
\<close>

function schedule_next_step ::
  "platform \<Rightarrow> renderer \<Rightarrow> (nat \<Rightarrow> nat) \<Rightarrow> transport \<Rightarrow> nat \<Rightarrow> db \<Rightarrow> email_sequence_enrollment
     \<Rightarrow> db \<times> email_sequence_enrollment" where
  "schedule_next_step pf render uuid4 transport now d enrollment =
     (case next_step enrollment of
        None \<Rightarrow> (d, enrollment\<lparr>enr_is_active := False, enr_completed_at := Some now\<rparr>)
      | Some step \<Rightarrow>
          if step_send_only_if_not_replied step \<and> enr_has_replied enrollment
          then schedule_next_step pf render uuid4 transport now d
                 (enrollment\<lparr>enr_current_step := step_number step\<rparr>)
          else if step_send_only_if_status step \<noteq> []
                  \<and> lead_status (enr_lead enrollment) \<notin> set (step_send_only_if_status step)
          then schedule_next_step pf render uuid4 transport now d
                 (enrollment\<lparr>enr_current_step := step_number step\<rparr>)
          else send_step_email pf render uuid4 transport now d enrollment step)"
  by pat_completeness auto

lemma steps_after_decrease:
  assumes "find (\<lambda>s. step_number s = k + 1 \<and> step_is_active s) steps = Some step"
  shows "length (filter (\<lambda>s. step_number step < step_number s) steps)
         < length (filter (\<lambda>s. k < step_number s) steps)"
proof -
  from assms have mem: "step \<in> set steps" and num: "step_number step = k + 1"
    by (auto simp: find_Some_iff)
  have "filter (\<lambda>s. k + 1 < step_number s) steps
        = filter (\<lambda>s. k + 1 < step_number s) (filter (\<lambda>s. k < step_number s) steps)"
    by (auto intro: filter_cong)
  moreover have "length (filter (\<lambda>s. k + 1 < step_number s) (filter (\<lambda>s. k < step_number s) steps))
                 < length (filter (\<lambda>s. k < step_number s) steps)"
    by (rule length_filter_less[of step]) (use mem num in auto)
  ultimately show ?thesis using num by simp
qed

termination schedule_next_step
proof (relation "measure (\<lambda>(pf, render, uuid4, transport, now, d, e).
         length (filter (\<lambda>s. enr_current_step e < step_number s) (seq_steps (enr_sequence e))))")
  show "wf (measure (\<lambda>(pf, render, uuid4, transport, now, d, e).
         length (filter (\<lambda>s. enr_current_step e < step_number s) (seq_steps (enr_sequence e)))))"
    by simp
qed (auto simp: next_step_def dest: steps_after_decrease)


declare schedule_next_step.simps [simp del]

text \<open>
  A sequence of two steps for the examples, the second one without the reply condition,
  an enrollment of the lead Ann that has passed both steps, and a database with the
  user's default configuration.
\<close>

definition follow_up_template :: email_template where
  "follow_up_template = \<lparr>tpl_id = 2, tpl_subject = ''Following up'',
              tpl_body_html = ''<p>Hi {{first_name}}, any news?</p>'', tpl_body_text = []\<rparr>"

definition follow_up_sequence :: email_sequence where
  "follow_up_sequence =
     \<lparr>seq_id = 1, seq_user = rep,
      seq_steps =
        [\<lparr>step_template = welcome_template, step_number = 1, step_delay_days = 0,
          step_send_only_if_not_replied = True, step_send_only_if_status = [],
          step_is_active = True\<rparr>,
         \<lparr>step_template = follow_up_template, step_number = 2, step_delay_days = 3,
          step_send_only_if_not_replied = False, step_send_only_if_status = [],
          step_is_active = True\<rparr>],
      seq_delay_start_days = 0\<rparr>"

definition finished_enrollment :: email_sequence_enrollment where
  "finished_enrollment =
     \<lparr>enr_sequence = follow_up_sequence, enr_lead = ann, enr_current_step = 2,
      enr_is_active = True, enr_completed_at = None, enr_emails_sent = 2,
      enr_last_email_sent = Some 4, enr_has_replied = False\<rparr>"

definition fresh_enrollment :: email_sequence_enrollment where
  "fresh_enrollment =
     \<lparr>enr_sequence = follow_up_sequence, enr_lead = ann, enr_current_step = 0,
      enr_is_active = True, enr_completed_at = None, enr_emails_sent = 0,
      enr_last_email_sent = None, enr_has_replied = False\<rparr>"

definition replied_enrollment :: email_sequence_enrollment where
  "replied_enrollment = fresh_enrollment\<lparr>enr_has_replied := True\<rparr>"

definition configured_db :: db where
  "configured_db =
     \<lparr>db_leads = [ann], db_configs = [first_config], db_emails = [], db_tracking = [],
      db_activities = []\<rparr>"

definition plain_renderer :: renderer where
  "plain_renderer template l u =
     Inr \<lparr>rc_subject = ''Welcome Ann!'', rc_html_body = ''<p>Hi Ann</p>'',
          rc_text_body = ''Hi Ann''\<rparr>"

section \<open>Materializing a campaign\<close>

text \<open>\<^verbatim>\<open>Email.objects.filter(campaign=campaign, lead=lead)\<close>, for the lead with the given key.\<close>

definition campaign_rows :: "db \<Rightarrow> email_campaign \<Rightarrow> nat \<Rightarrow> email list" where
  "campaign_rows d c k =
     filter (\<lambda>e. em_campaign e = Some (camp_id c) \<and> em_lead e = k) (db_emails d)"

datatype create_error = TargetError query_error | RenderError string | InsertError db_error

text \<open>
  The \<^verbatim>\<open>for\<close> loop of \<^verbatim>\<open>create_campaign_emails\<close> over the target leads, with the counter
  \<^verbatim>\<open>emails_created\<close>. An exception of the renderer or of the insert leaves the loop and
  the method; the rows created before it stay in the database.
\<close>

fun create_rows ::
  "platform \<Rightarrow> renderer \<Rightarrow> (nat \<Rightarrow> nat) \<Rightarrow> nat \<Rightarrow> email_campaign \<Rightarrow> db \<Rightarrow> lead list \<Rightarrow> int
     \<Rightarrow> db \<times> (create_error + int)" where
  "create_rows pf render uuid4 now campaign d [] emails_created = (d, Inr emails_created)"
| "create_rows pf render uuid4 now campaign d (l # leads) emails_created =
     (if campaign_rows d campaign (lead_id l) \<noteq> []
      then create_rows pf render uuid4 now campaign d leads emails_created
      else case render (camp_template campaign) l (camp_user campaign) of
             Inl msg \<Rightarrow> (d, Inl (RenderError msg))
           | Inr content \<Rightarrow>
               (case objects_create pf uuid4 now d (camp_user campaign) l (Some (camp_id campaign))
                       (camp_template campaign) content (camp_email_config campaign) of
                  Inl err \<Rightarrow> (d, Inl (InsertError err))
                | Inr (d', email) \<Rightarrow>
                    create_rows pf render uuid4 now campaign d' leads (emails_created + 1)))"

text \<open>
  \<^verbatim>\<open>EmailCampaignService.create_campaign_emails\<close> (services.py). The result is the
  database and, when the method returns, the campaign object as saved and the number of
  rows created.
\<close>

definition create_campaign_emails ::
  "platform \<Rightarrow> (lead list list \<Rightarrow> query_error + lead list) \<Rightarrow> renderer \<Rightarrow> (nat \<Rightarrow> nat) \<Rightarrow> nat \<Rightarrow> db
     \<Rightarrow> email_campaign \<Rightarrow> db \<times> (create_error + email_campaign \<times> int)" where
  "create_campaign_emails pf after_union render uuid4 now d campaign =
     (case get_target_leads after_union (db_leads d) campaign of
        Inl err \<Rightarrow> (d, Inl (TargetError err))
      | Inr leads \<Rightarrow>
          (case create_rows pf render uuid4 now campaign d leads 0 of
             (d', Inl err) \<Rightarrow> (d', Inl err)
           | (d', Inr emails_created) \<Rightarrow>
               (d', Inr (campaign\<lparr>camp_emails_sent := 0, camp_emails_failed := 0\<rparr>,
                         emails_created))))"

text \<open>
  A third lead, a lead table in which two of the three leads have an address, the
  database after the example campaign was materialized there, and the campaign after one
  delivery and one failure.
\<close>

definition cara :: lead where
  "cara = \<lparr>lead_id = 3, lead_first_name = ''Cara'', lead_last_name = Some ''Diaz'',
           lead_email = Some ''cara@example.org'', lead_phone = None, lead_company = None,
           lead_source_id = None, lead_status = ''new'', lead_priority = ''cold''\<rparr>"

definition three_leads_db :: db where
  "three_leads_db = configured_db\<lparr>db_leads := [ann, bob, cara]\<rparr>"

definition materialized_db :: db where
  "materialized_db =
     fst (create_campaign_emails strict_platform sql_after_union plain_renderer (\<lambda>pk. 100 + pk) 5 three_leads_db
            all_leads_campaign)"

definition partly_sent_campaign :: email_campaign where
  "partly_sent_campaign =
     all_leads_campaign\<lparr>camp_status := CampSending, camp_emails_sent := 1,
                         camp_emails_failed := 1\<rparr>"

(*DEFS-END*)

section \<open>Theorems: tracking\<close>

lemma mark_as_opened_status:
  "not_backwards (em_status e) (em_status (snd (mark_as_opened now d e)))"
  by (auto simp: mark_as_opened_def not_backwards_def Let_def)

lemma mark_as_clicked_status:
  "not_backwards (em_status e) (em_status (snd (mark_as_clicked now d e)))"
  by (auto simp: mark_as_clicked_def not_backwards_def Let_def)

lemma save_email_rows:
  assumes "r \<in> set (db_emails (save_email d e'))" and "e \<in> set (db_emails d)"
    and "em_id e' = em_id e"
  shows "r \<in> set (db_emails d) \<or> r = e'"
  using assms by (auto simp: save_email_def split: if_splits)

lemma find_in_table:
  assumes "find P xs = Some e"
  shows "e \<in> set xs"
  using assms by (auto simp: find_Some_iff)

lemma save_email_not_backwards:
  assumes dist: "distinct (map em_id (db_emails d))"
    and mem: "e \<in> set (db_emails d)"
    and id: "em_id e' = em_id e"
    and nb: "not_backwards (em_status e) (em_status e')"
    and r: "r \<in> set (db_emails (save_email d e'))"
  shows "\<exists>r0 \<in> set (db_emails d). em_id r0 = em_id r \<and> not_backwards (em_status r0) (em_status r)"
proof (cases "r = e'")
  case True
  with mem id nb show ?thesis by auto
next
  case False
  with r mem id have "r \<in> set (db_emails d)"
    using save_email_rows by blast
  then show ?thesis by (auto simp: not_backwards_def)
qed

lemma only_row_with_id:
  assumes "distinct (map em_id tbl)" and "e \<in> set tbl"
  shows "filter (\<lambda>r. em_id r = em_id e) tbl = [e]"
  using assms
proof (induction tbl)
  case Nil
  then show ?case by simp
next
  case (Cons x xs)
  show ?case
  proof (cases "x = e")
    case True
    have "filter (\<lambda>r. em_id r = em_id e) xs = []"
      using Cons.prems(1) True by (auto simp: filter_empty_conv image_iff)
    with True show ?thesis by simp
  next
    case False
    with Cons.prems have mem: "e \<in> set xs" by simp
    then have "em_id x \<noteq> em_id e" using Cons.prems(1) by auto
    with Cons.IH mem Cons.prems(1) show ?thesis by simp
  qed
qed

lemma save_email_row_with_id:
  assumes "distinct (map em_id (db_emails d))" and "e \<in> set (db_emails d)"
    and "em_id e' = em_id e"
  shows "filter (\<lambda>r. em_id r = em_id e) (db_emails (save_email d e')) = [e']"
proof -
  have mem: "em_id e' \<in> set (map em_id (db_emails d))" using assms(2,3) by force
  have "filter (\<lambda>r. em_id r = em_id e) (map (\<lambda>r. if em_id r = em_id e then e' else r) tbl)
        = map (\<lambda>r. e') (filter (\<lambda>r. em_id r = em_id e) tbl)" for tbl
    using assms(3) by (induction tbl) auto
  then show ?thesis
    using mem assms(3) only_row_with_id[OF assms(1,2)] by (simp add: save_email_def)
qed

lemma save_email_other_rows:
  assumes "em_id e' = k"
  shows "filter (\<lambda>r. em_id r \<noteq> k) (db_emails (save_email d e'))
         = filter (\<lambda>r. em_id r \<noteq> k) (db_emails d)"
proof -
  have "filter (\<lambda>r. em_id r \<noteq> k) (map (\<lambda>r. if em_id r = k then e' else r) tbl)
        = filter (\<lambda>r. em_id r \<noteq> k) tbl" for tbl
    using assms by (induction tbl) auto
  then show ?thesis using assms by (simp add: save_email_def)
qed

lemma save_email_tracking: "db_tracking (save_email d e) = db_tracking d"
  by (simp add: save_email_def)

text \<open>The steps of the view after the row was found and the event stored.\<close>

lemma tracking_known_id:
  assumes "find (\<lambda>e. em_tracking_id e = t) (db_emails d) = Some e"
    and "pf_varchar_enforced pf \<longrightarrow> length ev \<le> 20"
  shows "email_tracking pf now d t ev meta =
           Inr (let d1 = d\<lparr>db_tracking := db_tracking d @
                         [\<lparr>trk_email = em_id e, trk_event_type = ev, trk_timestamp = now,
                           trk_ip_address = stored_ip pf (meta_remote_addr meta),
                           trk_user_agent = (case meta_http_user_agent meta of
                                               None \<Rightarrow> [] | Some ua \<Rightarrow> ua)\<rparr>]\<rparr>
                in if ev = ''opened'' then fst (mark_as_opened now d1 e)
                   else if ev = ''clicked'' then fst (mark_as_clicked now d1 e)
                   else d1,
                if ev = ''opened'' then Pixel else NoContent)"
  using assms by (auto simp: email_tracking_def Let_def)

lemma tracking_unknown_id:
  assumes "find (\<lambda>e. em_tracking_id e = t) (db_emails d) = None"
  shows "email_tracking pf now d t ev meta = Inr (d, NoContent)"
  using assms by (simp add: email_tracking_def)

lemma mark_as_opened_stored:
  assumes "distinct (map em_id (db_emails d))" and "e \<in> set (db_emails d)"
  shows "filter (\<lambda>r. em_id r = em_id e) (db_emails (fst (mark_as_opened now d e)))
           = [snd (mark_as_opened now d e)]"
    and "filter (\<lambda>r. em_id r \<noteq> em_id e) (db_emails (fst (mark_as_opened now d e)))
           = filter (\<lambda>r. em_id r \<noteq> em_id e) (db_emails d)"
    and "db_tracking (fst (mark_as_opened now d e)) = db_tracking d"
proof -
  let ?e' = "e\<lparr>em_status := Opened, em_opened_at := Some now, em_open_count := em_open_count e + 1\<rparr>"
  have id: "em_id ?e' = em_id e" by simp
  show "filter (\<lambda>r. em_id r = em_id e) (db_emails (fst (mark_as_opened now d e)))
           = [snd (mark_as_opened now d e)]"
    using save_email_row_with_id[OF assms id] only_row_with_id[OF assms]
    by (simp add: mark_as_opened_def Let_def)
  show "filter (\<lambda>r. em_id r \<noteq> em_id e) (db_emails (fst (mark_as_opened now d e)))
           = filter (\<lambda>r. em_id r \<noteq> em_id e) (db_emails d)"
    using save_email_other_rows[OF id, of d] by (simp add: mark_as_opened_def Let_def)
  show "db_tracking (fst (mark_as_opened now d e)) = db_tracking d"
    by (simp add: mark_as_opened_def Let_def save_email_tracking)
qed

lemma mark_as_clicked_id: "em_id (snd (mark_as_clicked now d e)) = em_id e"
  by (simp add: mark_as_clicked_def Let_def)

lemma mark_as_clicked_fst:
  "fst (mark_as_clicked now d e) =
     (if em_status e \<in> {Sent, Delivered, Opened} then save_email d (snd (mark_as_clicked now d e))
      else d)"
  by (simp add: mark_as_clicked_def Let_def)

lemma mark_as_clicked_unchanged:
  "em_status e \<notin> {Sent, Delivered, Opened} \<Longrightarrow> snd (mark_as_clicked now d e) = e"
  by (simp add: mark_as_clicked_def)

lemma mark_as_clicked_stored:
  assumes "distinct (map em_id (db_emails d))" and "e \<in> set (db_emails d)"
  shows "filter (\<lambda>r. em_id r = em_id e) (db_emails (fst (mark_as_clicked now d e)))
           = [snd (mark_as_clicked now d e)]"
    and "filter (\<lambda>r. em_id r \<noteq> em_id e) (db_emails (fst (mark_as_clicked now d e)))
           = filter (\<lambda>r. em_id r \<noteq> em_id e) (db_emails d)"
    and "db_tracking (fst (mark_as_clicked now d e)) = db_tracking d"
proof -
  define e' where "e' = snd (mark_as_clicked now d e)"
  have id: "em_id e' = em_id e" by (simp add: e'_def mark_as_clicked_id)
  show "filter (\<lambda>r. em_id r = em_id e) (db_emails (fst (mark_as_clicked now d e)))
           = [snd (mark_as_clicked now d e)]"
    using save_email_row_with_id[OF assms id] only_row_with_id[OF assms]
      mark_as_clicked_unchanged[of e now d]
    unfolding mark_as_clicked_fst e'_def by (cases "em_status e \<in> {Sent, Delivered, Opened}") simp_all
  show "filter (\<lambda>r. em_id r \<noteq> em_id e) (db_emails (fst (mark_as_clicked now d e)))
           = filter (\<lambda>r. em_id r \<noteq> em_id e) (db_emails d)"
    using save_email_other_rows[OF id, of d]
    unfolding mark_as_clicked_fst e'_def by simp
  show "db_tracking (fst (mark_as_clicked now d e)) = db_tracking d"
    unfolding mark_as_clicked_fst by (simp add: save_email_tracking)
qed

lemma mark_as_opened_snd:
  "snd (mark_as_opened now d e) =
     (if em_status e \<in> {Sent, Delivered}
      then e\<lparr>em_status := Opened, em_opened_at := Some now, em_open_count := em_open_count e + 1\<rparr>
      else e)"
  by (simp add: mark_as_opened_def Let_def)

lemma mark_as_clicked_snd:
  "snd (mark_as_clicked now d e) =
     (if em_status e \<in> {Sent, Delivered, Opened}
      then if em_opened_at e = None
           then e\<lparr>em_status := Clicked, em_clicked_at := Some now,
                  em_click_count := em_click_count e + 1, em_opened_at := Some now,
                  em_open_count := em_open_count e + 1\<rparr>
           else e\<lparr>em_status := Clicked, em_clicked_at := Some now,
                  em_click_count := em_click_count e + 1\<rparr>
      else e)"
  by (simp add: mark_as_clicked_def Let_def)

lemma mark_snd_db: "snd (mark_as_opened now d1 e) = snd (mark_as_opened now d e)"
  "snd (mark_as_clicked now d1 e) = snd (mark_as_clicked now d e)"
  by (simp_all add: mark_as_opened_def mark_as_clicked_def Let_def)

lemma tracking_status_not_backwards:
  assumes dist: "distinct (map em_id (db_emails d))" and mem: "e \<in> set (db_emails d)"
    and same: "filter (\<lambda>r. em_id r = em_id e) tbl' = [e']"
    and others: "filter (\<lambda>r. em_id r \<noteq> em_id e) tbl' = filter (\<lambda>r. em_id r \<noteq> em_id e) (db_emails d)"
    and nb: "not_backwards (em_status e) (em_status e')"
    and r: "r \<in> set tbl'"
  shows "\<exists>r0 \<in> set (db_emails d). em_id r0 = em_id r \<and> not_backwards (em_status r0) (em_status r)"
proof (cases "em_id r = em_id e")
  case True
  with r have "r \<in> set (filter (\<lambda>r. em_id r = em_id e) tbl')" by simp
  with same have "r = e'" by simp
  with mem nb True show ?thesis by auto
next
  case False
  with r have "r \<in> set (filter (\<lambda>r. em_id r \<noteq> em_id e) tbl')" by simp
  with others have "r \<in> set (db_emails d)" by simp
  then show ?thesis by (auto simp: not_backwards_def)
qed

text \<open>
  Claim C9, as the code has it. A callback for a known tracking id (with an event that
  the database accepts) is answered, appends one EmailTracking row, and leaves every
  other Email row as it was. The stored row of the email itself: an \<^verbatim>\<open>opened\<close> callback
  sets it to opened, stamps \<^verbatim>\<open>opened_at\<close> and adds 1 to \<^verbatim>\<open>open_count\<close> only while its
  status is sent or delivered, that is on the first open, and leaves the row, counter
  included, unchanged otherwise; a \<^verbatim>\<open>clicked\<close> callback sets it to clicked and adds 1 to
  \<^verbatim>\<open>click_count\<close> (and records an open when none was recorded) only while the status is
  sent, delivered or opened; any other event leaves it unchanged. No callback moves the
  status of any stored Email row backwards in the lifecycle.
\<close>

theorem tracking_callbacks_monotone:
  assumes dist: "distinct (map em_id (db_emails d))"
    and found: "find (\<lambda>e. em_tracking_id e = t) (db_emails d) = Some e"
    and fits: "pf_varchar_enforced pf \<longrightarrow> length ev \<le> 20"
  shows "\<exists>d'. email_tracking pf now d t ev meta =
                Inr (d', if ev = ''opened'' then Pixel else NoContent)
       \<and> db_tracking d' =
           db_tracking d @ [\<lparr>trk_email = em_id e, trk_event_type = ev, trk_timestamp = now,
                             trk_ip_address = stored_ip pf (meta_remote_addr meta),
                             trk_user_agent = (case meta_http_user_agent meta of
                                                 None \<Rightarrow> [] | Some ua \<Rightarrow> ua)\<rparr>]
       \<and> filter (\<lambda>r. em_id r = em_id e) (db_emails d') =
           [if ev = ''opened''
            then if em_status e \<in> {Sent, Delivered}
                 then e\<lparr>em_status := Opened, em_opened_at := Some now,
                        em_open_count := em_open_count e + 1\<rparr>
                 else e
            else if ev = ''clicked''
            then if em_status e \<in> {Sent, Delivered, Opened}
                 then if em_opened_at e = None
                      then e\<lparr>em_status := Clicked, em_clicked_at := Some now,
                             em_click_count := em_click_count e + 1, em_opened_at := Some now,
                             em_open_count := em_open_count e + 1\<rparr>
                      else e\<lparr>em_status := Clicked, em_clicked_at := Some now,
                             em_click_count := em_click_count e + 1\<rparr>
                 else e
            else e]
       \<and> filter (\<lambda>r. em_id r \<noteq> em_id e) (db_emails d') =
           filter (\<lambda>r. em_id r \<noteq> em_id e) (db_emails d)
       \<and> (\<forall>r \<in> set (db_emails d').
            \<exists>r0 \<in> set (db_emails d).
              em_id r0 = em_id r \<and> not_backwards (em_status r0) (em_status r))"
proof -
  define row where "row = \<lparr>trk_email = em_id e, trk_event_type = ev, trk_timestamp = now,
                             trk_ip_address = stored_ip pf (meta_remote_addr meta),
                             trk_user_agent = (case meta_http_user_agent meta of
                                                 None \<Rightarrow> [] | Some ua \<Rightarrow> ua)\<rparr>"
  define d1 where "d1 = d\<lparr>db_tracking := db_tracking d @ [row]\<rparr>"
  define d' where "d' = (if ev = ''opened'' then fst (mark_as_opened now d1 e)
                         else if ev = ''clicked'' then fst (mark_as_clicked now d1 e) else d1)"
  define e' where "e' = (if ev = ''opened'' then snd (mark_as_opened now d e)
                         else if ev = ''clicked'' then snd (mark_as_clicked now d e) else e)"
  have res: "email_tracking pf now d t ev meta = Inr (d', if ev = ''opened'' then Pixel else NoContent)"
    using tracking_known_id[OF found fits, of now meta]
    by (simp add: d'_def d1_def row_def Let_def)
  have mem: "e \<in> set (db_emails d)" using found by (rule find_in_table)
  have dist1: "distinct (map em_id (db_emails d1))" and mem1: "e \<in> set (db_emails d1)"
    and em1: "db_emails d1 = db_emails d" and tr1: "db_tracking d1 = db_tracking d @ [row]"
    using dist mem by (simp_all add: d1_def)
  have trk: "db_tracking d' = db_tracking d @ [row]"
    using mark_as_opened_stored(3)[OF dist1 mem1] mark_as_clicked_stored(3)[OF dist1 mem1] tr1
    by (simp add: d'_def)
  have same: "filter (\<lambda>r. em_id r = em_id e) (db_emails d') = [e']"
    using mark_as_opened_stored(1)[OF dist1 mem1, of now]
      mark_as_clicked_stored(1)[OF dist1 mem1, of now]
      only_row_with_id[OF dist1 mem1] mark_snd_db[of now d1 e d]
    by (simp add: d'_def e'_def)
  have others: "filter (\<lambda>r. em_id r \<noteq> em_id e) (db_emails d') =
                filter (\<lambda>r. em_id r \<noteq> em_id e) (db_emails d)"
    using mark_as_opened_stored(2)[OF dist1 mem1, of now]
      mark_as_clicked_stored(2)[OF dist1 mem1, of now] em1
    by (simp add: d'_def)
  have nb: "not_backwards (em_status e) (em_status e')"
    using mark_as_opened_status[of e now d] mark_as_clicked_status[of e now d]
    by (simp add: e'_def not_backwards_def)
  have all: "\<forall>r \<in> set (db_emails d').
            \<exists>r0 \<in> set (db_emails d).
              em_id r0 = em_id r \<and> not_backwards (em_status r0) (em_status r)"
    using tracking_status_not_backwards[OF dist mem same others nb] by blast
  have e'_eq: "e' =
           (if ev = ''opened''
            then if em_status e \<in> {Sent, Delivered}
                 then e\<lparr>em_status := Opened, em_opened_at := Some now,
                        em_open_count := em_open_count e + 1\<rparr>
                 else e
            else if ev = ''clicked''
            then if em_status e \<in> {Sent, Delivered, Opened}
                 then if em_opened_at e = None
                      then e\<lparr>em_status := Clicked, em_clicked_at := Some now,
                             em_click_count := em_click_count e + 1, em_opened_at := Some now,
                             em_open_count := em_open_count e + 1\<rparr>
                      else e\<lparr>em_status := Clicked, em_clicked_at := Some now,
                             em_click_count := em_click_count e + 1\<rparr>
                 else e
            else e)"
    unfolding e'_def mark_as_opened_snd mark_as_clicked_snd by simp
  show ?thesis
    using res trk same others all unfolding e'_eq row_def by blast
qed

text \<open>The first open of the example email on a database that enforces lengths.\<close>

theorem tracking_callbacks_monotone_witness:
  "distinct (map em_id (db_emails example_db))
   \<and> find (\<lambda>e. em_tracking_id e = 77) (db_emails example_db) = Some example_email
   \<and> length ''opened'' \<le> 20
   \<and> \<not> isl (email_tracking strict_platform 5 example_db 77 ''opened'' browser_request)
   \<and> filter (\<lambda>r. em_id r = 1)
        (db_emails (fst (projr (email_tracking strict_platform 5 example_db 77 ''opened''
                                  browser_request))))
       = [example_email\<lparr>em_status := Opened, em_opened_at := Some 5, em_open_count := 1\<rparr>]"
proof -
  have d: "distinct (map em_id (db_emails example_db))"
    by (simp add: example_db_def)
  have f: "find (\<lambda>e. em_tracking_id e = 77) (db_emails example_db) = Some example_email"
    by (simp add: example_db_def example_email_def)
  have l: "pf_varchar_enforced strict_platform \<longrightarrow> length ''opened'' \<le> 20" by simp
  have st: "em_status example_email \<in> {Sent, Delivered}" "em_id example_email = 1"
    "em_open_count example_email = 0"
    by (simp_all add: example_email_def)
  from tracking_callbacks_monotone[OF d f l, of 5 browser_request] st
  obtain d' where
    "email_tracking strict_platform 5 example_db 77 ''opened'' browser_request = Inr (d', Pixel)"
    "filter (\<lambda>r. em_id r = 1) (db_emails d') =
       [example_email\<lparr>em_status := Opened, em_opened_at := Some 5, em_open_count := 1\<rparr>]"
    by auto
  with d f show ?thesis by simp
qed

text \<open>
  A repeated open: the callback is answered with the pixel and its EmailTracking row is
  stored, but \<^verbatim>\<open>open_count\<close> of the stored Email row stays 1.
\<close>

theorem repeated_open_keeps_open_count:
  "map em_open_count (db_emails opened_db) = [1]
   \<and> find (\<lambda>e. em_tracking_id e = 77) (db_emails opened_db) \<noteq> None
   \<and> \<not> isl (email_tracking strict_platform 5 opened_db 77 ''opened'' browser_request)
   \<and> snd (projr (email_tracking strict_platform 5 opened_db 77 ''opened'' browser_request)) = Pixel
   \<and> map trk_event_type
        (db_tracking (fst (projr (email_tracking strict_platform 5 opened_db 77 ''opened''
                                    browser_request)))) = [''opened'']
   \<and> map em_open_count
        (db_emails (fst (projr (email_tracking strict_platform 5 opened_db 77 ''opened''
                                  browser_request)))) = [1]"
  by (simp add: opened_db_def example_db_def example_email_def email_tracking_def
      mark_as_opened_def Let_def strict_platform_def browser_request_def)

lemma fold_max_ge: "x \<in> set xs \<Longrightarrow> x \<le> fold max xs (a::nat)"
proof (induction xs arbitrary: a)
  case Nil then show ?case by simp
next
  case (Cons y ys)
  have mono: "\<And>b. b \<le> fold max ys b"
  proof -
    fix b show "b \<le> fold max ys (b::nat)"
      by (induction ys arbitrary: b) (auto intro: order_trans[OF max.cobounded2])
  qed
  from Cons show ?case
    by (auto intro: order_trans[OF max.cobounded1 mono])
qed

lemma fresh_id_new: "fresh_id ids \<notin> set ids"
  using fold_max_ge[of "fresh_id ids" ids 0] by (auto simp: fresh_id_def)

lemma at_most_one_default_iff:
  "at_most_one_default tbl \<longleftrightarrow> (\<forall>u. length (defaults_of u tbl) \<le> 1)"
proof
  assume a: "at_most_one_default tbl"
  show "\<forall>u. length (defaults_of u tbl) \<le> 1"
  proof
    fix u
    show "length (defaults_of u tbl) \<le> 1"
    proof (cases "defaults_of u tbl")
      case Nil then show ?thesis by simp
    next
      case (Cons r rs)
      then have "r \<in> set (defaults_of u tbl)" by simp
      then have "r \<in> set tbl" "cfg_user r = u" by (auto simp: defaults_of_def)
      with a show ?thesis by (auto simp: at_most_one_default_def)
    qed
  qed
next
  assume "\<forall>u. length (defaults_of u tbl) \<le> 1"
  then show "at_most_one_default tbl" by (simp add: at_most_one_default_def)
qed

lemma defaults_clear_same: "defaults_of u (clear_defaults u tbl) = []"
  by (induction tbl) (auto simp: defaults_of_def clear_defaults_def)

lemma defaults_clear_le:
  "length (defaults_of u (clear_defaults v tbl)) \<le> length (defaults_of u tbl)"
  by (induction tbl) (auto simp: defaults_of_def clear_defaults_def)

lemma defaults_replace_le:
  assumes "\<not> (cfg_user c = u \<and> cfg_is_default c)"
  shows "length (defaults_of u (map (\<lambda>r. if cfg_id r = i then c else r) tbl))
         \<le> length (defaults_of u tbl)"
  using assms by (induction tbl) (auto simp: defaults_of_def)

lemma defaults_replace_none:
  assumes "i \<notin> set (map cfg_id tbl)"
  shows "map (\<lambda>r. if cfg_id r = i then c else r) tbl = tbl"
  using assms by (induction tbl) auto

lemma defaults_replace_one:
  assumes "distinct (map cfg_id tbl)" and "defaults_of u tbl = []"
  shows "length (defaults_of u (map (\<lambda>r. if cfg_id r = i then c else r) tbl)) \<le> 1"
  using assms
proof (induction tbl)
  case Nil then show ?case by (simp add: defaults_of_def)
next
  case (Cons a tbl)
  then have d: "distinct (map cfg_id tbl)" and e: "defaults_of u tbl = []"
    and na: "\<not> (cfg_user a = u \<and> cfg_is_default a)"
    by (auto simp: defaults_of_def split: if_splits)
  show ?case
  proof (cases "cfg_id a = i")
    case True
    with Cons.prems have "i \<notin> set (map cfg_id tbl)" by auto
    then have "map (\<lambda>r. if cfg_id r = i then c else r) tbl = tbl"
      by (rule defaults_replace_none)
    with True e show ?thesis by (simp add: defaults_of_def)
  next
    case False
    with Cons.IH[OF d e] na show ?thesis by (auto simp: defaults_of_def)
  qed
qed

lemma clear_defaults_ids: "map cfg_id (clear_defaults u tbl) = map cfg_id tbl"
  by (simp add: clear_defaults_def)

lemma model_save_cases:
  obtains (dup) "model_save tbl c = (tbl, Inl IntegrityError)"
  | (upd) "model_save tbl c = (map (\<lambda>r. if cfg_id r = cfg_id c then c else r) tbl, Inr c)"
  | (ins) c' where "model_save tbl c = (tbl @ [c'], Inr c')" "cfg_user c' = cfg_user c"
      "cfg_is_default c' = cfg_is_default c"
proof (cases "\<exists>r \<in> set tbl. cfg_user r = cfg_user c \<and> cfg_name r = cfg_name c \<and> cfg_id r \<noteq> cfg_id c")
  case True
  then have "model_save tbl c = (tbl, Inl IntegrityError)"
    unfolding model_save_def by (rule if_P)
  then show ?thesis by (rule dup)
next
  case nd: False
  show ?thesis
  proof (cases "cfg_id c \<noteq> None \<and> cfg_id c \<in> set (map cfg_id tbl)")
    case True
    have "model_save tbl c = (map (\<lambda>r. if cfg_id r = cfg_id c then c else r) tbl, Inr c)"
      using nd True by (simp add: model_save_def)
    then show ?thesis by (rule upd)
  next
    case False
    let ?c' = "if cfg_id c = None
               then c\<lparr>cfg_id := Some (fresh_id (List.map_filter cfg_id tbl))\<rparr> else c"
    have "model_save tbl c = (tbl @ [?c'], Inr ?c')"
      using nd False by (simp add: model_save_def Let_def)
    moreover have "cfg_user ?c' = cfg_user c" "cfg_is_default ?c' = cfg_is_default c"
      by simp_all
    ultimately show ?thesis by (rule ins)
  qed
qed

lemma model_save_preserves:
  assumes d1: "distinct (map cfg_id tbl)"
    and le1: "\<And>u. length (defaults_of u tbl) \<le> 1"
    and own: "cfg_is_default c \<Longrightarrow> defaults_of (cfg_user c) tbl = []"
  shows "length (defaults_of u (fst (model_save tbl c))) \<le> 1"
proof (cases rule: model_save_cases[of tbl c])
  case dup
  then show ?thesis using le1[of u] by simp
next
  case upd
  show ?thesis
  proof (cases "cfg_user c = u \<and> cfg_is_default c")
    case True
    then have "defaults_of u tbl = []" using own by auto
    then show ?thesis using defaults_replace_one[OF d1, of u "cfg_id c" c] upd by simp
  next
    case False
    then show ?thesis
      using defaults_replace_le[of c u "cfg_id c" tbl] le1[of u] upd by simp
  qed
next
  case (ins c')
  show ?thesis
  proof (cases "cfg_user c' = u \<and> cfg_is_default c'")
    case True
    then have "defaults_of u tbl = []" using own ins by auto
    then show ?thesis using ins by (simp add: defaults_of_def)
  next
    case False
    then have "defaults_of u (tbl @ [c']) = defaults_of u tbl"
      by (auto simp: defaults_of_def)
    then show ?thesis using le1[of u] ins by simp
  qed
qed

lemma save_preserves_invariant:
  assumes dist: "distinct (map cfg_id tbl)" and inv: "at_most_one_default tbl"
  shows "at_most_one_default (fst (save_configuration tbl c))"
proof -
  define tbl1 where "tbl1 = (if cfg_is_default c then clear_defaults (cfg_user c) tbl else tbl)"
  have d1: "distinct (map cfg_id tbl1)" using dist by (simp add: tbl1_def clear_defaults_ids)
  have le0: "length (defaults_of u tbl) \<le> 1" for u
    using inv by (simp add: at_most_one_default_iff)
  have le1: "length (defaults_of u tbl1) \<le> 1" for u
    using le0[of u] defaults_clear_le[of u "cfg_user c" tbl]
    by (cases "cfg_is_default c") (simp_all add: tbl1_def)
  have own: "cfg_is_default c \<Longrightarrow> defaults_of (cfg_user c) tbl1 = []"
    by (simp add: tbl1_def defaults_clear_same)
  have "length (defaults_of u (fst (model_save tbl1 c))) \<le> 1" for u
    using d1 le1 own by (rule model_save_preserves)
  then have "\<forall>u. length (defaults_of u (fst (save_configuration tbl c))) \<le> 1"
    unfolding save_configuration_def tbl1_def by blast
  then show ?thesis unfolding at_most_one_default_iff .
qed

lemma save_clears_others:
  assumes c: "cfg_is_default c" and r: "r \<in> set (fst (save_configuration tbl c))"
    and u: "cfg_user r = cfg_user c" and dr: "cfg_is_default r"
  shows "snd (save_configuration tbl c) = Inr r"
proof -
  define tbl1 where "tbl1 = clear_defaults (cfg_user c) tbl"
  have clr: "x \<in> set tbl1 \<Longrightarrow> cfg_user x = cfg_user c \<Longrightarrow> \<not> cfg_is_default x" for x
    by (auto simp: tbl1_def clear_defaults_def)
  have notin: "r \<notin> set tbl1" using clr u dr by blast
  have sv: "save_configuration tbl c = model_save tbl1 c"
    using c by (simp add: save_configuration_def tbl1_def)
  show ?thesis
  proof (cases rule: model_save_cases[of tbl1 c])
    case dup
    with r notin sv show ?thesis by simp
  next
    case upd
    with r sv have "r = c \<or> r \<in> set tbl1" by auto
    with notin upd sv show ?thesis by simp
  next
    case (ins c')
    with r sv have "r = c' \<or> r \<in> set tbl1" by auto
    with notin ins sv show ?thesis by simp
  qed
qed

text \<open>
  Claim C7. Saving a configuration with \<open>is_default\<close> set leaves no other default row
  of the same user: any default row of that user in the table after the save is the
  saved object itself. A save keeps the invariant that every user has at most one
  default configuration (primary keys being distinct).
\<close>

theorem save_configuration_single_default:
  assumes "distinct (map cfg_id tbl)"
  shows "(cfg_is_default c \<longrightarrow>
            (\<forall>r \<in> set (fst (save_configuration tbl c)).
               cfg_user r = cfg_user c \<and> cfg_is_default r \<longrightarrow>
               snd (save_configuration tbl c) = Inr r))
       \<and> (at_most_one_default tbl \<longrightarrow> at_most_one_default (fst (save_configuration tbl c)))"
  using save_clears_others[of c _ tbl] save_preserves_invariant[OF assms, of c] by blast

theorem save_configuration_single_default_witness:
  "distinct (map cfg_id [first_config])
   \<and> at_most_one_default [first_config]
   \<and> cfg_is_default second_config
   \<and> fst (save_configuration [first_config] second_config) =
       [first_config\<lparr>cfg_is_default := False\<rparr>, second_config\<lparr>cfg_id := Some 2\<rparr>]
   \<and> snd (save_configuration [first_config] second_config) = Inr (second_config\<lparr>cfg_id := Some 2\<rparr>)
   \<and> at_most_one_default (fst (save_configuration [first_config] second_config))"
proof -
  have d: "distinct (map cfg_id [first_config])" by simp
  have a: "at_most_one_default [first_config]"
    by (simp add: at_most_one_default_def defaults_of_def)
  have s: "save_configuration [first_config] second_config =
      ([first_config\<lparr>cfg_is_default := False\<rparr>, second_config\<lparr>cfg_id := Some 2\<rparr>],
       Inr (second_config\<lparr>cfg_id := Some 2\<rparr>))"
    by (simp add: save_configuration_def model_save_def clear_defaults_def first_config_def
        second_config_def fresh_id_def List.map_filter_simps Let_def)
  have c: "cfg_is_default second_config" by (simp add: second_config_def)
  show ?thesis
    using d a c s save_configuration_single_default[OF d, of second_config] by simp
qed

text \<open>
  Claim C4. For a campaign with \<open>target_all_leads\<close> the targets are exactly the leads
  whose email is neither null nor empty, each once, whatever the other targeting fields
  (and the behaviour of combined querysets) are.
\<close>

theorem target_all_leads_ignores_filters:
  assumes "camp_target_all_leads c"
  shows "\<exists>ls. get_target_leads after_union leads c = Inr ls
            \<and> set ls = {l \<in> set leads. lead_email l \<noteq> None \<and> lead_email l \<noteq> Some []}
            \<and> distinct ls
            \<and> (\<forall>c' f. camp_target_all_leads c' \<longrightarrow> get_target_leads f leads c' = Inr ls)"
  using assms by (auto simp: get_target_leads_def with_email_def has_email_def)

theorem target_all_leads_ignores_filters_witness:
  "camp_target_all_leads all_leads_campaign
   \<and> get_target_leads django_after_union [ann, bob] all_leads_campaign = Inr [ann]
   \<and> get_target_leads sql_after_union [ann, bob]
        (all_leads_campaign\<lparr>camp_target_statuses := [], camp_specific_leads := []\<rparr>) = Inr [ann]"
proof -
  have a: "camp_target_all_leads all_leads_campaign"
    by (simp add: all_leads_campaign_def)
  have e: "get_target_leads django_after_union [ann, bob] all_leads_campaign = Inr [ann]"
    by (simp add: get_target_leads_def all_leads_campaign_def with_email_def has_email_def
        ann_def bob_def)
  from target_all_leads_ignores_filters[OF a, of django_after_union "[ann, bob]"] e
  have "get_target_leads sql_after_union [ann, bob]
          (all_leads_campaign\<lparr>camp_target_statuses := [], camp_specific_leads := []\<rparr>) = Inr [ann]"
    by (simp add: all_leads_campaign_def)
  with a e show ?thesis by simp
qed

lemma send_email_success:
  "fst (snd (snd (send_email tr now cfg d e))) = delivered tr cfg e"
  by (simp add: send_email_def delivered_def Let_def split: send_outcome.splits)

lemma send_all_counts:
  "snd (send_all tr now cfg d es s f) =
     (s + int (length (filter (delivered tr cfg) es)),
      f + int (length (filter (\<lambda>e. \<not> delivered tr cfg e) es)))"
proof (induction es arbitrary: d s f)
  case Nil
  show ?case by simp
next
  case (Cons e es)
  obtain d' e' ok m where r: "send_email tr now cfg d e = (d', e', ok, m)"
    by (metis prod_cases4)
  then have ok: "ok = delivered tr cfg e"
    using send_email_success[of tr now cfg d e] by simp
  show ?case using r ok Cons.IH by simp
qed

lemma send_email_raised:
  assumes "transport config (e\<lparr>em_status := Sending\<rparr>) = SendRaised msg"
  shows "fst (snd (send_email transport now config d e)) =
           e\<lparr>em_status := Failed, em_error_message := msg, em_retry_count := em_retry_count e + 1\<rparr>"
  using assms by (simp add: send_email_def Let_def)

lemma send_email_unsent:
  assumes "transport config (e\<lparr>em_status := Sending\<rparr>) = SendFalse"
  shows "fst (snd (send_email transport now config d e)) =
           e\<lparr>em_status := Failed, em_error_message := ''Failed to send email''\<rparr>"
  using assms by (simp add: send_email_def Let_def)

lemma send_campaign_batch_counts:
  assumes "send_campaign_batch transport now d c bs = Inr (d', c', sent_count, failed_count)"
  shows "\<exists>batch. set batch \<subseteq> set (queued_emails d c)
           \<and> sent_count = int (length (filter (delivered transport (camp_email_config c)) batch))
           \<and> failed_count =
               int (length (filter (\<lambda>e. \<not> delivered transport (camp_email_config c) e) batch))
           \<and> sent_count + failed_count = int (length batch)"
proof -
  define k where "k = (case bs of None \<Rightarrow> camp_batch_size c
                       | Some k \<Rightarrow> if k = 0 then camp_batch_size c else k)"
  define batch where "batch = take (nat k) (queued_emails d c)"
  have sub: "set batch \<subseteq> set (queued_emails d c)"
    unfolding batch_def by (rule set_take_subset)
  have len: "int (length (filter (delivered transport (camp_email_config c)) batch))
           + int (length (filter (\<lambda>e. \<not> delivered transport (camp_email_config c) e) batch))
           = int (length batch)"
    using sum_length_filter_compl[of "delivered transport (camp_email_config c)" batch] by simp
  have nn: "\<not> k < 0"
    using assms by (auto simp: send_campaign_batch_def k_def Let_def split: if_splits)
  show ?thesis
  proof (cases "batch = []")
    case True
    then have "sent_count = 0" "failed_count = 0"
      using assms nn by (simp_all add: send_campaign_batch_def k_def[symmetric] batch_def[symmetric])
    with True sub show ?thesis by (intro exI[of _ batch]) simp
  next
    case False
    obtain d1 s f where r: "send_all transport now (camp_email_config c) d batch 0 0 = (d1, s, f)"
      by (metis prod_cases3)
    then have sf: "s = int (length (filter (delivered transport (camp_email_config c)) batch))"
        "f = int (length (filter (\<lambda>e. \<not> delivered transport (camp_email_config c) e) batch))"
      using send_all_counts[of transport now "camp_email_config c" d batch 0 0] by simp_all
    have "sent_count = s" "failed_count = f"
      using assms nn False r
      by (simp_all add: send_campaign_batch_def k_def[symmetric] batch_def[symmetric])
    with sf sub len show ?thesis by (intro exI[of _ batch]) simp
  qed
qed





lemma save_email_present:
  assumes "em_id e \<in> set (map em_id (db_emails d))"
  shows "db_emails (save_email d e) = map (\<lambda>r. if em_id r = em_id e then e else r) (db_emails d)"
  using assms by (simp add: save_email_def)

lemma save_email_ids:
  assumes "em_id e \<in> set (map em_id (db_emails d))"
  shows "map em_id (db_emails (save_email d e)) = map em_id (db_emails d)"
  using assms by (simp add: save_email_def comp_def cong: map_cong)











lemma queued_in_table: "set (queued_emails d c) \<subseteq> set (db_emails d)"
  by (auto simp: queued_emails_def newest_first_def)

lemma send_email_object:
  "fst (snd (send_email tr now cfg d e)) =
     (case tr cfg (e\<lparr>em_status := Sending\<rparr>) of
        SendOk \<Rightarrow> e\<lparr>em_status := Sent, em_sent_at := Some now\<rparr>
      | SendFalse \<Rightarrow> e\<lparr>em_status := Failed, em_error_message := ''Failed to send email''\<rparr>
      | SendRaised msg \<Rightarrow> e\<lparr>em_status := Failed, em_error_message := msg,
                              em_retry_count := em_retry_count e + 1\<rparr>)"
  by (simp add: send_email_def Let_def split: send_outcome.splits)

lemma send_email_object_id: "em_id (fst (snd (send_email tr now cfg d e))) = em_id e"
  unfolding send_email_object by (simp split: send_outcome.splits)

lemma send_email_object_status:
  "em_status (fst (snd (send_email tr now cfg d e))) = (if delivered tr cfg e then Sent else Failed)"
  unfolding send_email_object by (simp add: delivered_def split: send_outcome.splits)

lemma save_email_twice:
  assumes "em_id e \<in> set (map em_id (db_emails d))" and "em_id e1 = em_id e" and "em_id e2 = em_id e"
  shows "db_emails (save_email (save_email d e1) e2) =
           map (\<lambda>r. if em_id r = em_id e then e2 else r) (db_emails d)"
proof -
  have m1: "em_id e1 \<in> set (map em_id (db_emails d))" using assms by simp
  have r1: "db_emails (save_email d e1) = map (\<lambda>r. if em_id r = em_id e then e1 else r) (db_emails d)"
    using save_email_present[OF m1] assms(2) by simp
  have m2: "em_id e2 \<in> set (map em_id (db_emails (save_email d e1)))"
    using save_email_ids[OF m1] assms by simp
  show ?thesis
    using save_email_present[OF m2] r1 assms(2,3) by (simp add: comp_def)
qed

lemma send_email_rows:
  assumes mem: "em_id e \<in> set (map em_id (db_emails d))"
  shows "db_emails (fst (send_email tr now cfg d e)) =
           map (\<lambda>r. if em_id r = em_id e then fst (snd (send_email tr now cfg d e)) else r)
             (db_emails d)"
proof (cases "tr cfg (e\<lparr>em_status := Sending\<rparr>)")
  case SendOk
  let ?e2 = "e\<lparr>em_status := Sent, em_sent_at := Some now\<rparr>"
  have "db_emails (fst (send_email tr now cfg d e)) =
          db_emails (save_email (save_email d (e\<lparr>em_status := Sending\<rparr>)) ?e2)"
    using SendOk by (simp add: send_email_def Let_def)
  then show ?thesis
    using save_email_twice[OF mem, of "e\<lparr>em_status := Sending\<rparr>" ?e2] SendOk
    by (simp add: send_email_object)
next
  case SendFalse
  let ?e2 = "e\<lparr>em_status := Failed, em_error_message := ''Failed to send email''\<rparr>"
  have "db_emails (fst (send_email tr now cfg d e)) =
          db_emails (save_email (save_email d (e\<lparr>em_status := Sending\<rparr>)) ?e2)"
    using SendFalse by (simp add: send_email_def Let_def)
  then show ?thesis
    using save_email_twice[OF mem, of "e\<lparr>em_status := Sending\<rparr>" ?e2] SendFalse
    by (simp add: send_email_object)
next
  case (SendRaised msg)
  let ?e2 = "e\<lparr>em_status := Failed, em_error_message := msg,
               em_retry_count := em_retry_count e + 1\<rparr>"
  have "db_emails (fst (send_email tr now cfg d e)) =
          db_emails (save_email (save_email d (e\<lparr>em_status := Sending\<rparr>)) ?e2)"
    using SendRaised by (simp add: send_email_def Let_def)
  then show ?thesis
    using save_email_twice[OF mem, of "e\<lparr>em_status := Sending\<rparr>" ?e2] SendRaised
    by (simp add: send_email_object)
qed

lemma send_email_other_rows:
  "filter (\<lambda>r. em_id r \<noteq> em_id e) (db_emails (fst (send_email tr now cfg d e)))
     = filter (\<lambda>r. em_id r \<noteq> em_id e) (db_emails d)"
proof -
  have two: "filter (\<lambda>r. em_id r \<noteq> em_id e) (db_emails (save_email (save_email d e1) e2))
             = filter (\<lambda>r. em_id r \<noteq> em_id e) (db_emails d)"
    if "em_id e1 = em_id e" "em_id e2 = em_id e" for e1 e2
    using save_email_other_rows[OF that(2), of "save_email d e1"]
      save_email_other_rows[OF that(1), of d] by simp
  show ?thesis
    by (cases "tr cfg (e\<lparr>em_status := Sending\<rparr>)") (simp_all add: send_email_def Let_def two)
qed

text \<open>Every email of the list is attempted and stored with the outcome of its own attempt.\<close>

lemma send_all_attempts_each:
  assumes "distinct (map em_id (db_emails d))" and "set es \<subseteq> set (db_emails d)"
    and "distinct es"
  shows "map em_id (db_emails (fst (send_all tr now cfg d es s f))) = map em_id (db_emails d)
       \<and> (\<forall>e \<in> set es. fst (snd (send_email tr now cfg d e))
                           \<in> set (db_emails (fst (send_all tr now cfg d es s f))))
       \<and> (\<forall>r \<in> set (db_emails d). em_id r \<notin> em_id ` set es
             \<longrightarrow> r \<in> set (db_emails (fst (send_all tr now cfg d es s f))))"
  using assms
proof (induction es arbitrary: d s f)
  case Nil
  show ?case by simp
next
  case (Cons e es)
  define d1 where "d1 = fst (send_email tr now cfg d e)"
  define e1 where "e1 = fst (snd (send_email tr now cfg d e))"
  have mem: "e \<in> set (db_emails d)" using Cons.prems(2) by simp
  then have idm: "em_id e \<in> set (map em_id (db_emails d))" by simp
  have rows1: "db_emails d1 = map (\<lambda>r. if em_id r = em_id e then e1 else r) (db_emails d)"
    unfolding d1_def e1_def by (rule send_email_rows[OF idm])
  have id1: "em_id e1 = em_id e" unfolding e1_def by (rule send_email_object_id)
  have ids1: "map em_id (db_emails d1) = map em_id (db_emails d)"
    unfolding rows1 using id1 by (simp add: comp_def cong: map_cong)
  have dist1: "distinct (map em_id (db_emails d1))" using ids1 Cons.prems(1) by simp
  have other: "em_id x \<noteq> em_id e" if "x \<in> set es" for x
  proof -
    have "x \<noteq> e" using that Cons.prems(3) by auto
    moreover have "x \<in> set (db_emails d)" using that Cons.prems(2) by auto
    ultimately show ?thesis using Cons.prems(1) mem by (meson distinct_map inj_on_def)
  qed
  have keep: "r \<in> set (db_emails d1)" if "r \<in> set (db_emails d)" "em_id r \<noteq> em_id e" for r
    unfolding rows1 using that by force
  have sub1: "set es \<subseteq> set (db_emails d1)"
    using other keep Cons.prems(2) by auto
  have dist_es: "distinct es" using Cons.prems(3) by simp
  have e1_in: "e1 \<in> set (db_emails d1)" unfolding rows1 using mem by force
  obtain ok m where r: "send_email tr now cfg d e = (d1, e1, ok, m)"
    unfolding d1_def e1_def by (metis fst_conv snd_conv prod_cases4)
  obtain s' f' where step: "send_all tr now cfg d (e # es) s f = send_all tr now cfg d1 es s' f'"
    using r by (cases ok) simp_all
  note IH = Cons.IH[OF dist1 sub1 dist_es, of s' f']
  have obj: "fst (snd (send_email tr now cfg d1 x)) = fst (snd (send_email tr now cfg d x))" for x
    by (simp add: send_email_object)
  have e1_kept: "e1 \<in> set (db_emails (fst (send_all tr now cfg d1 es s' f')))"
    using IH e1_in id1 other by (auto simp: image_iff)
  show ?case
    unfolding step
  proof (intro conjI ballI impI)
    show "map em_id (db_emails (fst (send_all tr now cfg d1 es s' f'))) = map em_id (db_emails d)"
      using IH ids1 by simp
  next
    fix x assume "x \<in> set (e # es)"
    then consider "x = e" | "x \<in> set es" by auto
    then show "fst (snd (send_email tr now cfg d x))
                 \<in> set (db_emails (fst (send_all tr now cfg d1 es s' f')))"
    proof cases
      case 1
      then show ?thesis using e1_kept by (simp add: e1_def)
    next
      case 2
      then show ?thesis using IH obj by auto
    qed
  next
    fix r assume "r \<in> set (db_emails d)" "em_id r \<notin> em_id ` set (e # es)"
    then have "r \<in> set (db_emails d1)" "em_id r \<notin> em_id ` set es"
      using keep by auto
    then show "r \<in> set (db_emails (fst (send_all tr now cfg d1 es s' f')))"
      using IH by blast
  qed
qed


section \<open>Theorems: failed deliveries\<close>

text \<open>
  Claim C8. A delivery attempt fails by raising an exception inside the \<^verbatim>\<open>try\<close> block of
  \<^verbatim>\<open>send_email\<close> (with Django's message class every attempt does). Then the method
  returns \<^verbatim>\<open>(False, message)\<close>, and the email, as returned and as stored, has status
  failed, the text of the exception in \<^verbatim>\<open>error_message\<close> and \<^verbatim>\<open>retry_count\<close> one higher;
  no other row changes. A call of \<^verbatim>\<open>send_campaign_batch\<close> on a batch that is not empty
  returns normally whatever the outcomes are: every email of the batch is attempted and
  stored as sent or failed by its own outcome, the returned totals count the delivered
  and the failed ones, together the whole batch, and are added to the campaign.
\<close>

theorem send_email_failure_recorded:
  assumes dist: "distinct (map em_id (db_emails d))"
    and nonneg: "0 \<le> camp_batch_size c"
    and batch: "batch = take (nat (camp_batch_size c)) (queued_emails d c)"
    and cfg: "cfg = camp_email_config c"
  shows "(\<forall>e msg. e \<in> set (db_emails d) \<and> transport config (e\<lparr>em_status := Sending\<rparr>) = SendRaised msg
            \<longrightarrow> (\<exists>d'. send_email transport now config d e =
                        (d', e\<lparr>em_status := Failed, em_error_message := msg,
                               em_retry_count := em_retry_count e + 1\<rparr>, False, msg)
                    \<and> filter (\<lambda>r. em_id r = em_id e) (db_emails d') =
                        [e\<lparr>em_status := Failed, em_error_message := msg,
                            em_retry_count := em_retry_count e + 1\<rparr>]
                    \<and> filter (\<lambda>r. em_id r \<noteq> em_id e) (db_emails d') =
                        filter (\<lambda>r. em_id r \<noteq> em_id e) (db_emails d)))
       \<and> (batch \<noteq> [] \<longrightarrow>
            (\<exists>d'. send_campaign_batch transport now d c None =
                     Inr (d',
                          c\<lparr>camp_emails_sent := camp_emails_sent c
                               + int (length (filter (delivered transport cfg) batch)),
                            camp_emails_failed := camp_emails_failed c
                               + int (length (filter (\<lambda>e. \<not> delivered transport cfg e) batch))\<rparr>,
                          int (length (filter (delivered transport cfg) batch)),
                          int (length (filter (\<lambda>e. \<not> delivered transport cfg e) batch)))
                 \<and> int (length (filter (delivered transport cfg) batch))
                     + int (length (filter (\<lambda>e. \<not> delivered transport cfg e) batch))
                     = int (length batch)
                 \<and> (\<forall>e \<in> set batch. \<exists>r \<in> set (db_emails d').
                       em_id r = em_id e
                     \<and> em_status r = (if delivered transport cfg e then Sent else Failed))))"
proof (intro conjI allI impI)
  fix e msg
  assume a: "e \<in> set (db_emails d) \<and> transport config (e\<lparr>em_status := Sending\<rparr>) = SendRaised msg"
  define e2 where "e2 = e\<lparr>em_status := Failed, em_error_message := msg,
                          em_retry_count := em_retry_count e + 1\<rparr>"
  define d' where "d' = fst (send_email transport now config d e)"
  have res: "send_email transport now config d e = (d', e2, False, msg)"
    using a by (simp add: d'_def e2_def send_email_def Let_def)
  have obj: "fst (snd (send_email transport now config d e)) = e2" using res by simp
  have idm: "em_id e \<in> set (map em_id (db_emails d))" using a by simp
  have rows: "db_emails d' = map (\<lambda>r. if em_id r = em_id e then e2 else r) (db_emails d)"
    unfolding d'_def using send_email_rows[OF idm, of transport now config] obj by simp
  have "filter (\<lambda>r. em_id r = em_id e) (map (\<lambda>r. if em_id r = em_id e then e2 else r) tbl)
        = map (\<lambda>r. e2) (filter (\<lambda>r. em_id r = em_id e) tbl)" for tbl
    by (induction tbl) (auto simp: e2_def)
  then have same: "filter (\<lambda>r. em_id r = em_id e) (db_emails d') = [e2]"
    using rows only_row_with_id[OF dist] a by simp
  have others: "filter (\<lambda>r. em_id r \<noteq> em_id e) (db_emails d') =
                filter (\<lambda>r. em_id r \<noteq> em_id e) (db_emails d)"
    unfolding d'_def by (rule send_email_other_rows)
  show "\<exists>d'. send_email transport now config d e =
                 (d', e\<lparr>em_status := Failed, em_error_message := msg,
                        em_retry_count := em_retry_count e + 1\<rparr>, False, msg)
             \<and> filter (\<lambda>r. em_id r = em_id e) (db_emails d') =
                 [e\<lparr>em_status := Failed, em_error_message := msg,
                     em_retry_count := em_retry_count e + 1\<rparr>]
             \<and> filter (\<lambda>r. em_id r \<noteq> em_id e) (db_emails d') =
                 filter (\<lambda>r. em_id r \<noteq> em_id e) (db_emails d)"
    using res same others unfolding e2_def by blast
next
  assume ne: "batch \<noteq> []"
  define sent_count where "sent_count = int (length (filter (delivered transport cfg) batch))"
  define failed_count where
    "failed_count = int (length (filter (\<lambda>e. \<not> delivered transport cfg e) batch))"
  define d' where "d' = fst (send_all transport now cfg d batch 0 0)"
  have counts: "snd (send_all transport now cfg d batch 0 0) = (sent_count, failed_count)"
    using send_all_counts[of transport now cfg d batch 0 0]
    by (simp add: sent_count_def failed_count_def)
  then have all: "send_all transport now cfg d batch 0 0 = (d', sent_count, failed_count)"
    unfolding d'_def by (metis prod.collapse)
  have res: "send_campaign_batch transport now d c None =
               Inr (d', c\<lparr>camp_emails_sent := camp_emails_sent c + sent_count,
                          camp_emails_failed := camp_emails_failed c + failed_count\<rparr>,
                    sent_count, failed_count)"
    using nonneg ne all unfolding batch cfg by (simp add: send_campaign_batch_def Let_def)
  have total: "sent_count + failed_count = int (length batch)"
    using sum_length_filter_compl[of "delivered transport cfg" batch]
    by (simp add: sent_count_def failed_count_def)
  have dx: "distinct (db_emails d)" using dist by (simp add: distinct_map)
  have sub: "set batch \<subseteq> set (db_emails d)"
    unfolding batch using set_take_subset queued_in_table by fast
  have db: "distinct batch"
    unfolding batch using dx by (simp add: queued_emails_def newest_first_def)
  have each: "\<forall>e \<in> set batch. \<exists>r \<in> set (db_emails d').
                em_id r = em_id e
              \<and> em_status r = (if delivered transport cfg e then Sent else Failed)"
  proof
    fix e assume e: "e \<in> set batch"
    have "fst (snd (send_email transport now cfg d e)) \<in> set (db_emails d')"
      unfolding d'_def using send_all_attempts_each[OF dist sub db, of transport now cfg 0 0] e
      by blast
    then show "\<exists>r \<in> set (db_emails d').
                em_id r = em_id e
              \<and> em_status r = (if delivered transport cfg e then Sent else Failed)"
      using send_email_object_id[of transport now cfg d e]
        send_email_object_status[of transport now cfg d e] by blast
  qed
  show "\<exists>d'. send_campaign_batch transport now d c None =
                 Inr (d',
                      c\<lparr>camp_emails_sent := camp_emails_sent c
                           + int (length (filter (delivered transport cfg) batch)),
                        camp_emails_failed := camp_emails_failed c
                           + int (length (filter (\<lambda>e. \<not> delivered transport cfg e) batch))\<rparr>,
                      int (length (filter (delivered transport cfg) batch)),
                      int (length (filter (\<lambda>e. \<not> delivered transport cfg e) batch)))
             \<and> int (length (filter (delivered transport cfg) batch))
                 + int (length (filter (\<lambda>e. \<not> delivered transport cfg e) batch))
                 = int (length batch)
             \<and> (\<forall>e \<in> set batch. \<exists>r \<in> set (db_emails d').
                   em_id r = em_id e
                 \<and> em_status r = (if delivered transport cfg e then Sent else Failed))"
    using res total each unfolding sent_count_def failed_count_def by blast
qed

text \<open>
  The first batch of the five queued rows on Django's message class: both attempts raise,
  both are counted as failed, and the stored row of the newest email has one retry.
\<close>

theorem send_email_failure_recorded_witness:
  "distinct (map em_id (db_emails five_queued_db))
   \<and> 0 \<le> camp_batch_size sending_campaign
   \<and> take (nat (camp_batch_size sending_campaign)) (queued_emails five_queued_db sending_campaign)
       = [queued_for 5, queued_for 4]
   \<and> queued_for 5 \<in> set (db_emails five_queued_db)
   \<and> \<not> isl (send_campaign_batch django_send 7 five_queued_db sending_campaign None)
   \<and> snd (snd (projr (send_campaign_batch django_send 7 five_queued_db sending_campaign None)))
       = (0, 2)
   \<and> em_status (fst (snd (send_email django_send 7 first_config five_queued_db (queued_for 5))))
       = Failed
   \<and> em_retry_count (fst (snd (send_email django_send 7 first_config five_queued_db (queued_for 5))))
       = em_retry_count (queued_for 5) + 1"
proof -
  have d: "distinct (map em_id (db_emails five_queued_db))" by code_simp
  have n: "0 \<le> camp_batch_size sending_campaign" by code_simp
  have b: "[queued_for 5, queued_for 4] =
           take (nat (camp_batch_size sending_campaign)) (queued_emails five_queued_db sending_campaign)"
    by code_simp
  have m: "queued_for 5 \<in> set (db_emails five_queued_db)"
    by (simp add: five_queued_db_def)
  have r: "django_send first_config (queued_for 5\<lparr>em_status := Sending\<rparr>) =
           SendRaised (''EmailMessage.send() got an unexpected keyword argument ''
                       @ [CHR 0x27] @ ''using'' @ [CHR 0x27])"
    by (simp add: django_send_def)
  have nd: "\<not> delivered django_send cfg e" for cfg e
    by (simp add: delivered_def django_send_def)
  note inst = send_email_failure_recorded[OF d n b refl, of django_send first_config 7]
  from inst m r obtain d1 where
    "send_email django_send 7 first_config five_queued_db (queued_for 5) =
       (d1, queued_for 5\<lparr>em_status := Failed,
              em_error_message := ''EmailMessage.send() got an unexpected keyword argument ''
                       @ [CHR 0x27] @ ''using'' @ [CHR 0x27],
              em_retry_count := em_retry_count (queued_for 5) + 1\<rparr>, False,
        ''EmailMessage.send() got an unexpected keyword argument '' @ [CHR 0x27] @ ''using'' @ [CHR 0x27])"
    by blast
  moreover from inst nd obtain d2 c2 where
    "send_campaign_batch django_send 7 five_queued_db sending_campaign None = Inr (d2, c2, 0, 2)"
    by auto
  ultimately show ?thesis using d n b m by simp
qed

section \<open>Theorems: sending a campaign in batches\<close>

lemma queued_count_length: "queued_count d c = int (length (queued_emails d c))"
  by (simp add: queued_count_def queued_emails_def newest_first_def filter_sort)



text \<open>
  Whatever the transport does, a run of the scheduler leaves the status and
  \<^verbatim>\<open>completed_at\<close> of a campaign with a positive batch size as they are: the call is made
  only with a queued row, and then its batch is not empty.
\<close>

lemma continue_sending_frame:
  assumes bs: "0 < camp_batch_size c" and r: "continue_sending tr now d c = Inr (d', c')"
  shows "camp_status c' = camp_status c \<and> camp_completed_at c' = camp_completed_at c
       \<and> camp_batch_size c' = camp_batch_size c"
proof (cases "camp_status c = CampSending \<and> queued_count d c > 0")
  case False
  with r show ?thesis by (auto simp: continue_sending_def)
next
  case True
  then have ne: "queued_emails d c \<noteq> []" by (auto simp: queued_count_length)
  then have tk: "take (nat (camp_batch_size c)) (queued_emails d c) \<noteq> []"
    using bs by (cases "queued_emails d c") (auto simp: take_Cons')
  obtain d1 s f where "send_all tr now (camp_email_config c) d
                         (take (nat (camp_batch_size c)) (queued_emails d c)) 0 0 = (d1, s, f)"
    by (metis prod_cases3)
  then have "send_campaign_batch tr now d c None =
               Inr (d1, c\<lparr>camp_emails_sent := camp_emails_sent c + s,
                          camp_emails_failed := camp_emails_failed c + f\<rparr>, s, f)"
    using bs tk by (simp add: send_campaign_batch_def Let_def)
  with r True show ?thesis by (auto simp: continue_sending_def)
qed

lemma scheduler_never_completes:
  assumes "0 < camp_batch_size c" and "scheduler_runs tr ts d c = Inr (d', c')"
  shows "camp_status c' = camp_status c \<and> camp_completed_at c' = camp_completed_at c"
  using assms
proof (induction ts arbitrary: d c)
  case Nil
  then show ?case by simp
next
  case (Cons now later)
  from Cons.prems(2) obtain d1 c1 where
    step: "continue_sending tr now d c = Inr (d1, c1)"
    and rest: "scheduler_runs tr later d1 c1 = Inr (d', c')"
    by (auto split: sum.splits)
  from continue_sending_frame[OF Cons.prems(1) step]
  have f1: "camp_status c1 = camp_status c" "camp_completed_at c1 = camp_completed_at c"
    "camp_batch_size c1 = camp_batch_size c" by simp_all
  then have "0 < camp_batch_size c1" using Cons.prems(1) by simp
  from Cons.IH[OF this rest] f1 show ?case by simp
qed




section \<open>Theorems: email sequences\<close>

lemma no_next_step:
  assumes "\<forall>s \<in> set (seq_steps (enr_sequence e)). step_number s \<le> enr_current_step e"
  shows "next_step e = None"
  using assms by (auto simp: next_step_def find_None_iff)

lemma schedule_next_step_complete:
  assumes "next_step e = None"
  shows "schedule_next_step pf render uuid4 tr now d e =
           (d, e\<lparr>enr_is_active := False, enr_completed_at := Some now\<rparr>)"
  using assms by (subst schedule_next_step.simps) simp

text \<open>
  Claim C6, as the code has it. On an enrollment at or past the last step the method
  creates no email, sets \<^verbatim>\<open>is_active\<close> to false and stamps \<^verbatim>\<open>completed_at\<close> with the clock
  reading of the call, and leaves the other fields. A second call on the result does the
  same again: it keeps everything but \<^verbatim>\<open>completed_at\<close>, which it overwrites with the clock
  reading of the second call.
\<close>

theorem advance_past_last_step:
  assumes "\<forall>s \<in> set (seq_steps (enr_sequence e)). step_number s \<le> enr_current_step e"
  shows "schedule_next_step pf render uuid4 tr now d e =
           (d, e\<lparr>enr_is_active := False, enr_completed_at := Some now\<rparr>)
       \<and> schedule_next_step pf render uuid4 tr later d
           (e\<lparr>enr_is_active := False, enr_completed_at := Some now\<rparr>) =
           (d, e\<lparr>enr_is_active := False, enr_completed_at := Some later\<rparr>)"
proof -
  have n1: "next_step e = None" using assms by (rule no_next_step)
  have n2: "next_step (e\<lparr>enr_is_active := False, enr_completed_at := Some now\<rparr>) = None"
    using n1 by (simp add: next_step_def)
  show ?thesis
    using schedule_next_step_complete[OF n1, of pf render uuid4 tr now d]
      schedule_next_step_complete[OF n2, of pf render uuid4 tr later d]
    by simp
qed

text \<open>The enrollment that has passed both steps of the example, completed at 10 and again at 20.\<close>

theorem advance_past_last_step_witness:
  "map step_number (seq_steps (enr_sequence finished_enrollment)) = [1, 2]
   \<and> enr_current_step finished_enrollment = 2
   \<and> schedule_next_step strict_platform plain_renderer (\<lambda>pk. pk) always_delivers 10 configured_db finished_enrollment
       = (configured_db, finished_enrollment\<lparr>enr_is_active := False, enr_completed_at := Some 10\<rparr>)
   \<and> schedule_next_step strict_platform plain_renderer (\<lambda>pk. pk) always_delivers 20 configured_db
         (finished_enrollment\<lparr>enr_is_active := False, enr_completed_at := Some 10\<rparr>)
       = (configured_db, finished_enrollment\<lparr>enr_is_active := False, enr_completed_at := Some 20\<rparr>)"
proof -
  have h: "\<forall>s \<in> set (seq_steps (enr_sequence finished_enrollment)).
             step_number s \<le> enr_current_step finished_enrollment"
    by (simp add: finished_enrollment_def follow_up_sequence_def)
  have n: "map step_number (seq_steps (enr_sequence finished_enrollment)) = [1, 2]"
      "enr_current_step finished_enrollment = 2"
    by (simp_all add: finished_enrollment_def follow_up_sequence_def)
  show ?thesis
    using n advance_past_last_step[OF h, of strict_platform plain_renderer "\<lambda>pk. pk" always_delivers 10 configured_db 20]
    by blast
qed

text \<open>
  The second call is not a no-op: the enrollment completed at 10 comes back completed
  at 20.
\<close>

theorem second_advance_restamps_completed_at:
  "enr_completed_at (snd (schedule_next_step strict_platform plain_renderer (\<lambda>pk. pk) always_delivers 10
                            configured_db finished_enrollment)) = Some 10
   \<and> enr_completed_at
       (snd (schedule_next_step strict_platform plain_renderer (\<lambda>pk. pk) always_delivers 20
               (fst (schedule_next_step strict_platform plain_renderer (\<lambda>pk. pk) always_delivers 10
                       configured_db finished_enrollment))
               (snd (schedule_next_step strict_platform plain_renderer (\<lambda>pk. pk) always_delivers 10
                       configured_db finished_enrollment)))) = Some 20
   \<and> snd (schedule_next_step strict_platform plain_renderer (\<lambda>pk. pk) always_delivers 20
             (fst (schedule_next_step strict_platform plain_renderer (\<lambda>pk. pk) always_delivers 10
                     configured_db finished_enrollment))
             (snd (schedule_next_step strict_platform plain_renderer (\<lambda>pk. pk) always_delivers 10
                     configured_db finished_enrollment)))
       \<noteq> snd (schedule_next_step strict_platform plain_renderer (\<lambda>pk. pk) always_delivers 10
                 configured_db finished_enrollment)"
  by (simp add: schedule_next_step.simps next_step_def finished_enrollment_def
      follow_up_sequence_def)


lemma objects_create_row:
  assumes "objects_create pf uuid4 now d u l campaign template content config = Inr (d1, email)"
  shows "db_emails d1 = db_emails d @ [email]" and "em_id email \<notin> set (map em_id (db_emails d))"
    and "em_status email = Queued" and "em_lead email = lead_id l"
    and "em_template email = Some (tpl_id template)" and "em_campaign email = campaign"
    and "lead_email l = Some (em_to_email email)"
    and "db_configs d1 = db_configs d"
  using assms fresh_id_new[of "map em_id (db_emails d)"]
  by (auto simp: objects_create_def Let_def split: option.splits if_splits)

lemma send_new_email_rows:
  assumes "db_emails d1 = db_emails d @ [email]" and "em_id email \<notin> set (map em_id (db_emails d))"
  shows "db_emails (fst (send_email tr now cfg d1 email)) =
           db_emails d @ [fst (snd (send_email tr now cfg d1 email))]"
proof -
  have mem: "em_id email \<in> set (map em_id (db_emails d1))" using assms(1) by simp
  have "map (\<lambda>r. if em_id r = em_id email then x else r) (db_emails d) = db_emails d" for x
    using assms(2) by (intro map_idI) (auto simp: image_iff)
  then show ?thesis
    using send_email_rows[OF mem, of tr now cfg] assms(1) by simp
qed

lemma send_step_email_created:
  assumes cfg: "sequence_config (db_configs d) (usr_id (seq_user (enr_sequence e))) = Some cfg"
    and rendered: "render (step_template step) (enr_lead e) (seq_user (enr_sequence e)) = Inr content"
    and created: "objects_create pf uuid4 now d (seq_user (enr_sequence e)) (enr_lead e) None
                    (step_template step) content cfg = Inr (d1, email)"
  shows "send_step_email pf render uuid4 tr now d e step =
           (fst (send_email tr now cfg d1 email),
            e\<lparr>enr_current_step := step_number step, enr_emails_sent := enr_emails_sent e + 1,
              enr_last_email_sent := Some now\<rparr>)"
  using assms by (simp add: send_step_email_def Let_def split: prod.splits)

text \<open>
  Claim C5, as the code has it. Let the next step carry \<^verbatim>\<open>send_only_if_not_replied\<close>. On an
  enrollment that has replied the step is skipped: the call gives what the call on the
  enrollment moved to the step's number gives, so no email is created for the step and
  the evaluation goes on with the step after it. On an enrollment that has not replied
  and passes the status condition the \<^verbatim>\<open>try\<close> block runs: once a configuration is found,
  the template rendered and the row inserted, one Email row for the lead and the step's
  template is added, the enrollment moves to the step's number with \<^verbatim>\<open>emails_sent\<close> one
  higher, and \<^verbatim>\<open>send_email\<close> is called on the row, which ends as sent when the transport
  delivers it and as failed when it does not.
\<close>

theorem replied_step_skipped:
  assumes nxt: "next_step e = Some step"
    and cond: "step_send_only_if_not_replied step"
  shows "step_number step = enr_current_step e + 1
       \<and> (enr_has_replied e \<longrightarrow>
            schedule_next_step pf render uuid4 tr now d e =
              schedule_next_step pf render uuid4 tr now d (e\<lparr>enr_current_step := step_number step\<rparr>))
       \<and> (\<not> enr_has_replied e
           \<and> (step_send_only_if_status step = []
                \<or> lead_status (enr_lead e) \<in> set (step_send_only_if_status step))
           \<and> sequence_config (db_configs d) (usr_id (seq_user (enr_sequence e))) = Some cfg
           \<and> render (step_template step) (enr_lead e) (seq_user (enr_sequence e)) = Inr content
           \<and> objects_create pf uuid4 now d (seq_user (enr_sequence e)) (enr_lead e) None
                (step_template step) content cfg = Inr (d1, email)
           \<longrightarrow> (\<exists>d' row.
                  schedule_next_step pf render uuid4 tr now d e =
                    (d', e\<lparr>enr_current_step := step_number step,
                           enr_emails_sent := enr_emails_sent e + 1,
                           enr_last_email_sent := Some now\<rparr>)
                \<and> db_emails d' = db_emails d @ [row]
                \<and> em_lead row = lead_id (enr_lead e)
                \<and> em_template row = Some (tpl_id (step_template step))
                \<and> em_status row = (if delivered tr cfg email then Sent else Failed)))"
proof (intro conjI impI)
  show "step_number step = enr_current_step e + 1"
    using nxt by (auto simp: next_step_def find_Some_iff)
next
  assume "enr_has_replied e"
  then show "schedule_next_step pf render uuid4 tr now d e =
               schedule_next_step pf render uuid4 tr now d (e\<lparr>enr_current_step := step_number step\<rparr>)"
    using nxt cond by (subst schedule_next_step.simps) simp
next
  assume a: "\<not> enr_has_replied e
           \<and> (step_send_only_if_status step = []
                \<or> lead_status (enr_lead e) \<in> set (step_send_only_if_status step))
           \<and> sequence_config (db_configs d) (usr_id (seq_user (enr_sequence e))) = Some cfg
           \<and> render (step_template step) (enr_lead e) (seq_user (enr_sequence e)) = Inr content
           \<and> objects_create pf uuid4 now d (seq_user (enr_sequence e)) (enr_lead e) None
                (step_template step) content cfg = Inr (d1, email)"
  define row where "row = fst (snd (send_email tr now cfg d1 email))"
  have run: "schedule_next_step pf render uuid4 tr now d e = send_step_email pf render uuid4 tr now d e step"
    using nxt a by (subst schedule_next_step.simps) auto
  have created: "objects_create pf uuid4 now d (seq_user (enr_sequence e)) (enr_lead e) None
                   (step_template step) content cfg = Inr (d1, email)"
    using a by blast
  have res: "send_step_email pf render uuid4 tr now d e step =
           (fst (send_email tr now cfg d1 email),
            e\<lparr>enr_current_step := step_number step, enr_emails_sent := enr_emails_sent e + 1,
              enr_last_email_sent := Some now\<rparr>)"
    using a by (intro send_step_email_created) blast+
  have rows: "db_emails (fst (send_email tr now cfg d1 email)) = db_emails d @ [row]"
    unfolding row_def
    by (rule send_new_email_rows[OF objects_create_row(1)[OF created] objects_create_row(2)[OF created]])
  have fields: "em_lead row = lead_id (enr_lead e)"
      "em_template row = Some (tpl_id (step_template step))"
    using objects_create_row(4,5)[OF created]
    unfolding row_def send_email_object by (simp_all split: send_outcome.splits)
  have status: "em_status row = (if delivered tr cfg email then Sent else Failed)"
    unfolding row_def by (rule send_email_object_status)
  show "\<exists>d' row.
          schedule_next_step pf render uuid4 tr now d e =
            (d', e\<lparr>enr_current_step := step_number step,
                   enr_emails_sent := enr_emails_sent e + 1,
                   enr_last_email_sent := Some now\<rparr>)
        \<and> db_emails d' = db_emails d @ [row]
        \<and> em_lead row = lead_id (enr_lead e)
        \<and> em_template row = Some (tpl_id (step_template step))
        \<and> em_status row = (if delivered tr cfg email then Sent else Failed)"
    using run res rows fields status by auto
qed

lemma example_steps:
  "next_step fresh_enrollment = Some (hd (seq_steps follow_up_sequence))"
  "next_step replied_enrollment = Some (hd (seq_steps follow_up_sequence))"
  "step_send_only_if_not_replied (hd (seq_steps follow_up_sequence))"
  "step_number (hd (seq_steps follow_up_sequence)) = 1"
  by (simp_all add: next_step_def fresh_enrollment_def replied_enrollment_def follow_up_sequence_def)

text \<open>
  The example enrollment that has replied: step 1 is skipped, and the call is the call
  on the enrollment at step 1.
\<close>

theorem replied_step_skipped_witness:
  "next_step replied_enrollment = Some (hd (seq_steps follow_up_sequence))
   \<and> step_send_only_if_not_replied (hd (seq_steps follow_up_sequence))
   \<and> enr_has_replied replied_enrollment
   \<and> schedule_next_step strict_platform plain_renderer (\<lambda>pk. pk) django_send 10 configured_db replied_enrollment
       = schedule_next_step strict_platform plain_renderer (\<lambda>pk. pk) django_send 10 configured_db
           (replied_enrollment\<lparr>enr_current_step := 1\<rparr>)"
proof -
  have r: "enr_has_replied replied_enrollment"
    by (simp add: replied_enrollment_def)
  show ?thesis
    using r example_steps
      replied_step_skipped[OF example_steps(2) example_steps(3),
        of strict_platform plain_renderer "\<lambda>pk. pk" django_send 10 configured_db]
    by simp
qed

text \<open>
  The example enrollment that has not replied, on Django's message class: the email of
  step 1 is created and the enrollment counts it as sent, but the send raises and the row
  is stored as failed. Without a configuration nothing is created.
\<close>

theorem step_email_created_but_not_sent:
  "map em_status (db_emails (fst (schedule_next_step strict_platform plain_renderer (\<lambda>pk. pk) django_send 10
                                    configured_db fresh_enrollment))) = [Failed]
   \<and> map em_retry_count (db_emails (fst (schedule_next_step strict_platform plain_renderer (\<lambda>pk. pk) django_send 10
                                    configured_db fresh_enrollment))) = [1]
   \<and> enr_emails_sent (snd (schedule_next_step strict_platform plain_renderer (\<lambda>pk. pk) django_send 10
                                    configured_db fresh_enrollment)) = 1
   \<and> enr_current_step (snd (schedule_next_step strict_platform plain_renderer (\<lambda>pk. pk) django_send 10
                                    configured_db fresh_enrollment)) = 1
   \<and> schedule_next_step strict_platform plain_renderer (\<lambda>pk. pk) always_delivers 10
        (configured_db\<lparr>db_configs := []\<rparr>) fresh_enrollment
       = (configured_db\<lparr>db_configs := []\<rparr>, fresh_enrollment)"
  by code_simp

section \<open>Theorems: materializing a campaign\<close>

lemma objects_create_campaign_rows:
  assumes "objects_create pf uuid4 now d u l (Some (camp_id c)) template content config = Inr (d', e)"
  shows "campaign_rows d' c k = campaign_rows d c k @ (if k = lead_id l then [e] else [])"
    and "db_leads d' = db_leads d"
  using assms
  by (auto simp: objects_create_def campaign_rows_def Let_def split: option.splits if_splits)

lemma create_rows_leads: "db_leads (fst (create_rows pf render uuid4 now c d ls n)) = db_leads d"
proof (induction ls arbitrary: d n)
  case Nil
  show ?case by simp
next
  case (Cons l ls)
  show ?case
    using Cons.IH objects_create_campaign_rows(2)
    by (auto split: sum.splits prod.splits)
qed

lemma create_rows_at_most_one:
  assumes "\<forall>k. length (campaign_rows d c k) \<le> 1"
  shows "\<forall>k. length (campaign_rows (fst (create_rows pf render uuid4 now c d ls n)) c k) \<le> 1"
  using assms
proof (induction ls arbitrary: d n)
  case Nil
  then show ?case by simp
next
  case (Cons l ls)
  show ?case
  proof (cases "campaign_rows d c (lead_id l) \<noteq> []")
    case True
    then show ?thesis using Cons.IH[OF Cons.prems] by simp
  next
    case none: False
    show ?thesis
    proof (cases "render (camp_template c) l (camp_user c)")
      case (Inl msg)
      then show ?thesis using none Cons.prems by simp
    next
      case (Inr content)
      show ?thesis
      proof (cases "objects_create pf uuid4 now d (camp_user c) l (Some (camp_id c))
                      (camp_template c) content (camp_email_config c)")
        case (Inl err)
        then show ?thesis using none Inr Cons.prems by simp
      next
        case created: (Inr p)
        obtain d' e where p: "p = (d', e)" by (cases p)
        have "\<forall>k. length (campaign_rows d' c k) \<le> 1"
          using objects_create_campaign_rows(1)[OF created[unfolded p]] none Cons.prems by simp
        from Cons.IH[OF this] show ?thesis using none Inr created p by simp
      qed
    qed
  qed
qed

lemma create_rows_keeps:
  assumes "campaign_rows d c k \<noteq> []"
  shows "campaign_rows (fst (create_rows pf render uuid4 now c d ls n)) c k \<noteq> []"
  using assms
proof (induction ls arbitrary: d n)
  case Nil
  then show ?case by simp
next
  case (Cons l ls)
  show ?case
  proof (cases "campaign_rows d c (lead_id l) \<noteq> []")
    case True
    then show ?thesis using Cons.IH[OF Cons.prems] by simp
  next
    case none: False
    show ?thesis
    proof (cases "render (camp_template c) l (camp_user c)")
      case (Inl msg)
      then show ?thesis using none Cons.prems by simp
    next
      case (Inr content)
      show ?thesis
      proof (cases "objects_create pf uuid4 now d (camp_user c) l (Some (camp_id c))
                      (camp_template c) content (camp_email_config c)")
        case (Inl err)
        then show ?thesis using none Inr Cons.prems by simp
      next
        case created: (Inr p)
        obtain d' e where p: "p = (d', e)" by (cases p)
        have "campaign_rows d' c k \<noteq> []"
          using objects_create_campaign_rows(1)[OF created[unfolded p]] Cons.prems by simp
        from Cons.IH[OF this] show ?thesis using none Inr created p by simp
      qed
    qed
  qed
qed

lemma create_rows_covers:
  assumes "create_rows pf render uuid4 now c d ls n = (d', Inr m)"
  shows "\<forall>l \<in> set ls. campaign_rows d' c (lead_id l) \<noteq> []"
  using assms
proof (induction ls arbitrary: d n)
  case Nil
  then show ?case by simp
next
  case (Cons l ls)
  show ?case
  proof (cases "campaign_rows d c (lead_id l) \<noteq> []")
    case True
    then have rest: "create_rows pf render uuid4 now c d ls n = (d', Inr m)"
      using Cons.prems by simp
    have "campaign_rows d' c (lead_id l) \<noteq> []"
      using create_rows_keeps[OF True, of pf render uuid4 now ls n] rest by simp
    then show ?thesis using Cons.IH[OF rest] by simp
  next
    case none: False
    from Cons.prems none obtain content d1 e where
      created: "objects_create pf uuid4 now d (camp_user c) l (Some (camp_id c))
                  (camp_template c) content (camp_email_config c) = Inr (d1, e)"
      and rest: "create_rows pf render uuid4 now c d1 ls (n + 1) = (d', Inr m)"
      by (auto split: sum.splits prod.splits)
    have "campaign_rows d1 c (lead_id l) \<noteq> []"
      using objects_create_campaign_rows(1)[OF created, of "lead_id l"] by simp
    then have "campaign_rows d' c (lead_id l) \<noteq> []"
      using create_rows_keeps[of d1 c "lead_id l" pf render uuid4 now ls "n + 1"] rest by simp
    then show ?thesis using Cons.IH[OF rest] by simp
  qed
qed

lemma create_rows_all_exist:
  assumes "\<forall>l \<in> set ls. campaign_rows d c (lead_id l) \<noteq> []"
  shows "create_rows pf render uuid4 now c d ls n = (d, Inr n)"
  using assms by (induction ls) simp_all

lemma target_querysets_counters:
  "target_querysets leads (c\<lparr>camp_emails_sent := s, camp_emails_failed := f\<rparr>)
     = target_querysets leads c"
  by (simp add: target_querysets_def cong: option.case_cong)

lemma get_target_leads_counters:
  "get_target_leads after_union leads (c\<lparr>camp_emails_sent := s, camp_emails_failed := f\<rparr>)
     = get_target_leads after_union leads c"
  by (simp add: get_target_leads_def target_querysets_counters)

lemma campaign_rows_counters:
  "campaign_rows d (c\<lparr>camp_emails_sent := s, camp_emails_failed := f\<rparr>) k = campaign_rows d c k"
  by (simp add: campaign_rows_def)


lemma create_campaign_emails_returned:
  assumes "create_campaign_emails pf after_union render uuid4 now d c = (d1, Inr (c1, n1))"
  shows "\<exists>leads. get_target_leads after_union (db_leads d) c = Inr leads
               \<and> create_rows pf render uuid4 now c d leads 0 = (d1, Inr n1)"
    and "c1 = c\<lparr>camp_emails_sent := 0, camp_emails_failed := 0\<rparr>"
  using assms
  by (auto simp: create_campaign_emails_def split: sum.splits prod.splits)

lemma create_campaign_emails_nothing_new:
  assumes "get_target_leads after_union (db_leads d) c = Inr leads"
    and "\<forall>l \<in> set leads. campaign_rows d c (lead_id l) \<noteq> []"
  shows "create_campaign_emails pf after_union render uuid4 now d c =
           (d, Inr (c\<lparr>camp_emails_sent := 0, camp_emails_failed := 0\<rparr>, 0))"
  using assms create_rows_all_exist[OF assms(2), of pf render uuid4 now 0]
  by (simp add: create_campaign_emails_def)

text \<open>
  Claim C3. Let no lead have more than one Email row of the campaign. Whatever the
  outcome of \<^verbatim>\<open>create_campaign_emails\<close>, an exception included, no lead has more than one
  afterwards. When the call returns, every target lead has exactly one; and a second
  call, for which the targets are the same, creates no row: it returns 0 and leaves the
  database as the first call left it.
\<close>

theorem create_campaign_emails_idempotent:
  assumes once: "\<forall>k. length (campaign_rows d c k) \<le> 1"
  shows "(\<forall>k. length (campaign_rows
                     (fst (create_campaign_emails pf after_union render uuid4 now d c)) c k) \<le> 1)
       \<and> (\<forall>d1 c1 n1.
             create_campaign_emails pf after_union render uuid4 now d c = (d1, Inr (c1, n1))
             \<longrightarrow> (\<exists>leads.
                    get_target_leads after_union (db_leads d) c = Inr leads
                  \<and> get_target_leads after_union (db_leads d1) c1 = Inr leads
                  \<and> (\<forall>l \<in> set leads. length (campaign_rows d1 c1 (lead_id l)) = 1)
                  \<and> (\<forall>k. length (campaign_rows d1 c1 k) \<le> 1)
                  \<and> create_campaign_emails pf after_union render2 uuid4_2 later d1 c1 =
                      (d1, Inr (c1, 0))))"
proof (intro conjI allI impI)
  fix k
  show "length (campaign_rows (fst (create_campaign_emails pf after_union render uuid4 now d c)) c k) \<le> 1"
  proof (cases "get_target_leads after_union (db_leads d) c")
    case (Inl err)
    then show ?thesis using once by (simp add: create_campaign_emails_def)
  next
    case (Inr leads)
    have "fst (create_campaign_emails pf after_union render uuid4 now d c) =
          fst (create_rows pf render uuid4 now c d leads 0)"
      using Inr by (simp add: create_campaign_emails_def split: sum.splits prod.splits)
    then show ?thesis
      using create_rows_at_most_one[OF once, of pf render uuid4 now leads 0] by simp
  qed
next
  fix d1 c1 n1
  assume first: "create_campaign_emails pf after_union render uuid4 now d c = (d1, Inr (c1, n1))"
  from create_campaign_emails_returned[OF first] obtain leads where
    targets: "get_target_leads after_union (db_leads d) c = Inr leads"
    and rows: "create_rows pf render uuid4 now c d leads 0 = (d1, Inr n1)"
    and c1: "c1 = c\<lparr>camp_emails_sent := 0, camp_emails_failed := 0\<rparr>"
    by blast
  have leads1: "db_leads d1 = db_leads d"
    using create_rows_leads[of pf render uuid4 now c d leads 0] rows by simp
  have targets1: "get_target_leads after_union (db_leads d1) c1 = Inr leads"
    using targets leads1 by (simp add: c1 get_target_leads_counters)
  have same: "campaign_rows d1 c1 k = campaign_rows d1 c k" for k
    by (simp add: c1 campaign_rows_counters)
  have most: "\<forall>k. length (campaign_rows d1 c1 k) \<le> 1"
    using create_rows_at_most_one[OF once, of pf render uuid4 now leads 0] rows same by simp
  have some: "\<forall>l \<in> set leads. campaign_rows d1 c1 (lead_id l) \<noteq> []"
    using create_rows_covers[OF rows] same by simp
  have one: "\<forall>l \<in> set leads. length (campaign_rows d1 c1 (lead_id l)) = 1"
  proof
    fix l assume "l \<in> set leads"
    with some have "length (campaign_rows d1 c1 (lead_id l)) \<noteq> 0" by simp
    moreover have "length (campaign_rows d1 c1 (lead_id l)) \<le> 1" using most by simp
    ultimately show "length (campaign_rows d1 c1 (lead_id l)) = 1" by linarith
  qed
  have again: "create_campaign_emails pf after_union render2 uuid4_2 later d1 c1 = (d1, Inr (c1, 0))"
    using create_campaign_emails_nothing_new[OF targets1 some, of pf render2 uuid4_2 later]
    by (simp add: c1)
  show "\<exists>leads.
          get_target_leads after_union (db_leads d) c = Inr leads
        \<and> get_target_leads after_union (db_leads d1) c1 = Inr leads
        \<and> (\<forall>l \<in> set leads. length (campaign_rows d1 c1 (lead_id l)) = 1)
        \<and> (\<forall>k. length (campaign_rows d1 c1 k) \<le> 1)
        \<and> create_campaign_emails pf after_union render2 uuid4_2 later d1 c1 = (d1, Inr (c1, 0))"
    using targets targets1 one most again by blast
qed

text \<open>
  The example campaign on the table of three leads: the first call creates the rows of
  Ann and Cara, the second call none.
\<close>

theorem create_campaign_emails_idempotent_witness:
  "db_emails three_leads_db = []
   \<and> snd (create_campaign_emails strict_platform sql_after_union plain_renderer (\<lambda>pk. 100 + pk) 5 three_leads_db
            all_leads_campaign)
       = Inr (all_leads_campaign\<lparr>camp_emails_sent := 0, camp_emails_failed := 0\<rparr>, 2)
   \<and> map em_lead (db_emails materialized_db) = [1, 3]
   \<and> create_campaign_emails strict_platform sql_after_union plain_renderer (\<lambda>pk. 200 + pk) 9 materialized_db
        (all_leads_campaign\<lparr>camp_emails_sent := 0, camp_emails_failed := 0\<rparr>)
       = (materialized_db, Inr (all_leads_campaign\<lparr>camp_emails_sent := 0, camp_emails_failed := 0\<rparr>, 0))"
proof -
  have empty: "db_emails three_leads_db = []"
    by (simp add: three_leads_db_def configured_db_def)
  then have once: "\<forall>k. length (campaign_rows three_leads_db all_leads_campaign k) \<le> 1"
    by (simp add: campaign_rows_def)
  have res: "snd (create_campaign_emails strict_platform sql_after_union plain_renderer (\<lambda>pk. 100 + pk) 5
                    three_leads_db all_leads_campaign)
             = Inr (all_leads_campaign\<lparr>camp_emails_sent := 0, camp_emails_failed := 0\<rparr>, 2)"
    by code_simp
  have rows: "map em_lead (db_emails materialized_db) = [1, 3]" by code_simp
  have first: "create_campaign_emails strict_platform sql_after_union plain_renderer (\<lambda>pk. 100 + pk) 5
                 three_leads_db all_leads_campaign
               = (materialized_db,
                  Inr (all_leads_campaign\<lparr>camp_emails_sent := 0, camp_emails_failed := 0\<rparr>, 2))"
    using res unfolding materialized_db_def by (metis prod.collapse)
  from create_campaign_emails_idempotent[OF once, of strict_platform sql_after_union plain_renderer
         "\<lambda>pk. 100 + pk" 5 plain_renderer "\<lambda>pk. 200 + pk" 9] first
  have "create_campaign_emails strict_platform sql_after_union plain_renderer (\<lambda>pk. 200 + pk) 9 materialized_db
          (all_leads_campaign\<lparr>camp_emails_sent := 0, camp_emails_failed := 0\<rparr>)
        = (materialized_db, Inr (all_leads_campaign\<lparr>camp_emails_sent := 0, camp_emails_failed := 0\<rparr>, 0))"
    by blast
  with empty res rows show ?thesis by simp
qed

text \<open>
  Claim C10. Whenever \<^verbatim>\<open>create_campaign_emails\<close> returns, the campaign it has saved is
  the campaign it was given with \<^verbatim>\<open>emails_sent\<close> and \<^verbatim>\<open>emails_failed\<close> set to 0, whatever
  the two counters were and however many rows it created. In particular a call that
  finds an Email row for every target lead returns, creates nothing, and still resets
  both counters.
\<close>

theorem create_campaign_emails_resets_counters:
  "(\<forall>d' c' n. create_campaign_emails pf after_union render uuid4 now d c = (d', Inr (c', n))
       \<longrightarrow> c' = c\<lparr>camp_emails_sent := 0, camp_emails_failed := 0\<rparr>)
   \<and> (\<forall>leads. get_target_leads after_union (db_leads d) c = Inr leads
         \<and> (\<forall>l \<in> set leads. campaign_rows d c (lead_id l) \<noteq> [])
       \<longrightarrow> create_campaign_emails pf after_union render uuid4 now d c =
             (d, Inr (c\<lparr>camp_emails_sent := 0, camp_emails_failed := 0\<rparr>, 0)))"
  using create_campaign_emails_returned(2) create_campaign_emails_nothing_new
  by blast

text \<open>
  The campaign with one email sent and one failed, materialized again: no row is created
  and both counters are 0.
\<close>

theorem create_campaign_emails_resets_counters_witness:
  "camp_emails_sent partly_sent_campaign = 1 \<and> camp_emails_failed partly_sent_campaign = 1
   \<and> get_target_leads sql_after_union (db_leads materialized_db) partly_sent_campaign
       = Inr [ann, cara]
   \<and> campaign_rows materialized_db partly_sent_campaign (lead_id ann) \<noteq> []
   \<and> campaign_rows materialized_db partly_sent_campaign (lead_id cara) \<noteq> []
   \<and> create_campaign_emails strict_platform sql_after_union plain_renderer (\<lambda>pk. 200 + pk) 9 materialized_db
        partly_sent_campaign
       = (materialized_db,
          Inr (partly_sent_campaign\<lparr>camp_emails_sent := 0, camp_emails_failed := 0\<rparr>, 0))
   \<and> camp_emails_sent (fst (projr (snd
         (create_campaign_emails strict_platform sql_after_union plain_renderer (\<lambda>pk. 200 + pk) 9 materialized_db
            partly_sent_campaign)))) = 0"
proof -
  have cnt: "camp_emails_sent partly_sent_campaign = 1" "camp_emails_failed partly_sent_campaign = 1"
    by (simp_all add: partly_sent_campaign_def)
  have t: "get_target_leads sql_after_union (db_leads materialized_db) partly_sent_campaign
           = Inr [ann, cara]"
    by code_simp
  have a: "campaign_rows materialized_db partly_sent_campaign (lead_id ann) \<noteq> []" by code_simp
  have c: "campaign_rows materialized_db partly_sent_campaign (lead_id cara) \<noteq> []" by code_simp
  have all: "\<forall>l \<in> set [ann, cara]. campaign_rows materialized_db partly_sent_campaign (lead_id l) \<noteq> []"
    using a c by simp
  from create_campaign_emails_resets_counters[of strict_platform sql_after_union plain_renderer "\<lambda>pk. 200 + pk" 9
         materialized_db partly_sent_campaign] t all
  have "create_campaign_emails strict_platform sql_after_union plain_renderer (\<lambda>pk. 200 + pk) 9 materialized_db
          partly_sent_campaign
        = (materialized_db,
           Inr (partly_sent_campaign\<lparr>camp_emails_sent := 0, camp_emails_failed := 0\<rparr>, 0))"
    by blast
  with cnt t a c show ?thesis by simp
qed

end
